theory Spec2Isabelle
  imports Complex_Main
begin

section \<open>Values, errors and tensor indexing\<close>

text \<open>
  The model follows \<^verbatim>\<open>src/emle/models.py\<close>. Floating-point numbers are
  modelled by exact reals: rounding and overflow are not part of the model.
  Python and torch exceptions are values of the type \<open>error\<close>.
\<close>

datatype error = IndexError | RuntimeError | LinAlgError | NonFinite

text \<open>
  Indexing a one-dimensional tensor with an integer tensor, as in
  \<^verbatim>\<open>self._species_map[atomic_numbers]\<close>: an index \<open>i\<close> with
  \<open>-n \<le> i < n\<close> reads position \<open>i mod n\<close> (negative indices count from the
  end), any other index raises IndexError.
\<close>

definition index_tensor :: "'a list \<Rightarrow> int list \<Rightarrow> error + 'a list" where
  "index_tensor xs idx =
     (if list_all (\<lambda>i. - int (length xs) \<le> i \<and> i < int (length xs)) idx
      then Inr (map (\<lambda>i. xs ! nat (i mod int (length xs))) idx)
      else Inl IndexError)"

section \<open>The species table of \<^verbatim>\<open>EMLE.__init__\<close>\<close>

text \<open>
  \<^verbatim>\<open>
  species = [1, 6, 7, 8, 16]
  species_map = _np.full(max(species) + 1, fill_value=-1, dtype=_np.int64)
  for i, s in enumerate(species):
      species_map[s] = i
  \<close>
\<close>

definition species :: "nat list" where
  "species = [1, 6, 7, 8, 16]"

definition species_map :: "int list" where
  "species_map =
     fold (\<lambda>(i, s) m. m[s := int i]) (enumerate 0 species)
       (replicate (Max (set species) + 1) (- 1))"

text \<open>The first step of \<^verbatim>\<open>forward\<close> after the empty-charge test:
  \<^verbatim>\<open>species_id = self._species_map[atomic_numbers]\<close>.\<close>

definition species_id_of :: "int list \<Rightarrow> error + int list" where
  "species_id_of atomic_numbers = index_tensor species_map atomic_numbers"

section \<open>Units\<close>

definition ANGSTROM_TO_BOHR :: real where
  "ANGSTROM_TO_BOHR = 1.8897261258369282"

text \<open>\<^verbatim>\<open>xyz_qm_bohr = xyz_qm * ANGSTROM_TO_BOHR\<close>, on an \<open>N \<times> 3\<close> tensor.\<close>

definition to_bohr :: "real list list \<Rightarrow> real list list" where
  "to_bohr xyz = map (map (\<lambda>x. x * ANGSTROM_TO_BOHR)) xyz"


section \<open>Floating-point values\<close>

text \<open>
  A value computed by the program is a \<open>real option\<close>: \<open>Some x\<close> is the finite
  number \<open>x\<close>; \<open>None\<close> says that computing the value divided by zero or took
  the square root of a negative number, where IEEE arithmetic gives an infinity
  or a NaN and raises nothing. The model does not track what becomes of such a
  value: every operation on \<open>None\<close> gives \<open>None\<close>. So \<open>Some x\<close> says that the
  program computes \<open>x\<close> with finite numbers only, and \<open>None\<close> says that an
  infinity or a NaN occurred on the way; it does not say that the program's
  value is not finite, since IEEE arithmetic can come back from an infinity to
  a finite number (\<open>erf\<close> of an infinity is \<open>1\<close>, a finite number divided by an
  infinity is \<open>0\<close>).
\<close>

type_synonym fl = "real option"

fun fadd :: "fl \<Rightarrow> fl \<Rightarrow> fl" where
  "fadd (Some x) (Some y) = Some (x + y)"
| "fadd _ _ = None"

fun fsub :: "fl \<Rightarrow> fl \<Rightarrow> fl" where
  "fsub (Some x) (Some y) = Some (x - y)"
| "fsub _ _ = None"

fun fmul :: "fl \<Rightarrow> fl \<Rightarrow> fl" where
  "fmul (Some x) (Some y) = Some (x * y)"
| "fmul _ _ = None"

fun fdiv :: "fl \<Rightarrow> fl \<Rightarrow> fl" where
  "fdiv (Some x) (Some y) = (if y = 0 then None else Some (x / y))"
| "fdiv _ _ = None"

fun fneg :: "fl \<Rightarrow> fl" where
  "fneg (Some x) = Some (- x)"
| "fneg None = None"

fun fpow :: "fl \<Rightarrow> nat \<Rightarrow> fl" where
  "fpow (Some x) n = Some (x ^ n)"
| "fpow None n = None"

fun fsqrt :: "fl \<Rightarrow> fl" where
  "fsqrt (Some x) = (if x < 0 then None else Some (sqrt x))"
| "fsqrt None = None"

fun fexp :: "fl \<Rightarrow> fl" where
  "fexp (Some x) = Some (exp x)"
| "fexp None = None"

text \<open>\<^verbatim>\<open>torch.sum\<close> over a vector and the dot product of two vectors.\<close>

definition fsum :: "fl list \<Rightarrow> fl" where
  "fsum xs = foldr fadd xs (Some 0)"

definition fdot :: "fl list \<Rightarrow> fl list \<Rightarrow> fl" where
  "fdot xs ys = fsum (map2 fmul xs ys)"

text \<open>A tensor of parameters or inputs holds finite numbers.\<close>

definition fin :: "real list \<Rightarrow> fl list" where
  "fin xs = map Some xs"

section \<open>Rounded arithmetic of a tensor's dtype\<close>















section \<open>Boolean masks\<close>

text \<open>\<^verbatim>\<open>x[mask]\<close>: the entries of \<open>x\<close> where the mask holds, in their order.\<close>

fun masked_select :: "bool list \<Rightarrow> 'a list \<Rightarrow> 'a list" where
  "masked_select (m # ms) (x # xs) =
     (if m then x # masked_select ms xs else masked_select ms xs)"
| "masked_select _ _ = []"

text \<open>\<^verbatim>\<open>result[mask] = vals\<close>: the values go, in their order, to the positions
  where the mask holds.\<close>

fun masked_assign :: "bool list \<Rightarrow> 'a list \<Rightarrow> 'a list \<Rightarrow> 'a list" where
  "masked_assign (m # ms) vs (r # rs) =
     (if m
      then (case vs of v # vs' \<Rightarrow> v # masked_assign ms vs' rs | [] \<Rightarrow> r # rs)
      else r # masked_assign ms vs rs)"
| "masked_assign _ _ rs = rs"

section \<open>The model object\<close>

text \<open>
  A tensor of rank 0, 1 or 2. The coefficient buffers \<^verbatim>\<open>_c_s\<close>, \<^verbatim>\<open>_c_chi\<close>
  and \<^verbatim>\<open>_c_k\<close> are results of \<^verbatim>\<open>.squeeze()\<close>, whose rank depends on the
  sizes of the reference tables.
\<close>

datatype tensor = Scalar fl | Vec "fl list" | Mat "fl list list"

text \<open>\<^verbatim>\<open>c[i, :n]\<close>: two indices need a tensor of rank 2 and a row \<open>i\<close>.\<close>

definition row_slice :: "tensor \<Rightarrow> nat \<Rightarrow> nat \<Rightarrow> error + fl list" where
  "row_slice c i n =
     (case c of
        Mat rows \<Rightarrow> if i < length rows then Inr (take n (rows ! i)) else Inl IndexError
      | Vec v \<Rightarrow> Inl IndexError
      | Scalar x \<Rightarrow> Inl IndexError)"

datatype alpha_mode = Species | Reference

text \<open>
  The buffers of an \<^verbatim>\<open>EMLE\<close> object, named as its attributes without the
  leading underscore (\<^verbatim>\<open>_k\<close> is \<open>k_scale\<close>). The AEV computer is the external
  feature model: from species ids and positions it returns one feature row per
  atom, or raises.
\<close>

record emle =
  mode :: alpha_mode
  aev_computer :: "int list \<Rightarrow> real list list \<Rightarrow> error + real list list"
  aev_mask :: "bool list"
  q_core :: "real list"
  a_QEq :: real
  a_Thole :: real
  k_scale :: "real list"
  q_total :: real
  ref_features :: "real list list list"
  n_ref :: "nat list"
  ref_mean_s :: "fl list"
  ref_mean_chi :: "fl list"
  c_s :: tensor
  c_chi :: tensor
  ref_mean_k :: "fl list"
  c_k :: tensor

section \<open>Gaussian process regression: \<^verbatim>\<open>EMLE._gpr\<close>\<close>

text \<open>
  One round of the loop over the species \<open>i\<close>:
  \<^verbatim>\<open>
  n_ref = self._n_ref[i]
  ref_features_z = self._ref_features[i, :n_ref]
  mol_features_z = mol_features[zid == i, :, None]
  K_mol_ref2 = (ref_features_z @ mol_features_z) ** 2
  K_mol_ref2 = K_mol_ref2.reshape(K_mol_ref2.shape[:-1])
  result[zid == i] = K_mol_ref2 @ c[i, :n_ref] + ref_mean[i]
  \<close>
  The feature rows are taken to have one common width.
\<close>

definition gpr_iter ::
  "emle \<Rightarrow> fl list list \<Rightarrow> fl list \<Rightarrow> tensor \<Rightarrow> int list \<Rightarrow> nat \<Rightarrow> fl list \<Rightarrow> error + fl list"
where
  "gpr_iter self mol_features ref_mean c zid i result =
     (if length (ref_features self) \<le> i then Inl IndexError
      else if length zid \<noteq> length mol_features then Inl IndexError
      else
        let n = n_ref self ! i;
            ref_features_z = take n (ref_features self ! i);
            mask = map (\<lambda>z. z = int i) zid;
            mol_features_z = masked_select mask mol_features;
            K_mol_ref2 = map (\<lambda>a. map (\<lambda>b. fpow (fdot (fin b) a) 2) ref_features_z) mol_features_z
        in case row_slice c i n of
             Inl e \<Rightarrow> Inl e
           | Inr c_z \<Rightarrow>
               if length ref_mean \<le> i then Inl IndexError
               else Inr (masked_assign mask
                          (map (\<lambda>K_a. fadd (fdot K_a c_z) (ref_mean ! i)) K_mol_ref2) result))"

fun gpr_loop ::
  "emle \<Rightarrow> fl list list \<Rightarrow> fl list \<Rightarrow> tensor \<Rightarrow> int list \<Rightarrow> nat list \<Rightarrow> fl list \<Rightarrow> error + fl list"
where
  "gpr_loop self mol_features ref_mean c zid [] result = Inr result"
| "gpr_loop self mol_features ref_mean c zid (i # is) result =
     (case gpr_iter self mol_features ref_mean c zid i result of
        Inl e \<Rightarrow> Inl e
      | Inr result' \<Rightarrow> gpr_loop self mol_features ref_mean c zid is result')"

text \<open>\<^verbatim>\<open>result = zeros(len(zid)); for i in range(len(self._n_ref)): ...\<close>\<close>

definition gpr ::
  "emle \<Rightarrow> fl list list \<Rightarrow> fl list \<Rightarrow> tensor \<Rightarrow> int list \<Rightarrow> error + fl list"
where
  "gpr self mol_features ref_mean c zid =
     gpr_loop self mol_features ref_mean c zid [0..<length (n_ref self)]
       (replicate (length zid) (Some 0))"

text \<open>The value the loop gives an atom with feature row \<open>a\<close> in round \<open>i\<close>:
  row \<open>a\<close> of \<^verbatim>\<open>K_mol_ref2 @ c[i, :n_ref] + ref_mean[i]\<close>, for a coefficient
  tensor of rank 2 with the rows \<open>rows\<close>.\<close>

definition gpr_atom :: "emle \<Rightarrow> fl list \<Rightarrow> fl list list \<Rightarrow> nat \<Rightarrow> fl list \<Rightarrow> fl" where
  "gpr_atom self ref_mean rows i a =
     fadd (fdot (map (\<lambda>b. fpow (fdot (fin b) a) 2) (take (n_ref self ! i) (ref_features self ! i)))
                (take (n_ref self ! i) (rows ! i)))
          (ref_mean ! i)"

section \<open>Geometry: \<^verbatim>\<open>EMLE._get_r_data\<close>\<close>

text \<open>\<^verbatim>\<open>torch.where(cond, x, y)\<close> on one element: both \<open>x\<close> and \<open>y\<close> have been
  computed, and the condition selects one of them.\<close>

definition torch_where :: "bool \<Rightarrow> 'a \<Rightarrow> 'a \<Rightarrow> 'a" where
  "torch_where c x y = (if c then x else y)"

text \<open>\<^verbatim>\<open>x.repeat_interleave(k)\<close> along the first dimension.\<close>

definition repeat_interleave :: "nat \<Rightarrow> 'a list \<Rightarrow> 'a list" where
  "repeat_interleave k xs = concat (map (replicate k) xs)"

text \<open>\<^verbatim>\<open>torch.tile(M, (1, n))\<close>: every row \<open>n\<close> times side by side.\<close>

definition tile_cols :: "nat \<Rightarrow> 'a list list \<Rightarrow> 'a list list" where
  "tile_cols n M = map (\<lambda>row. concat (replicate n row)) M"

definition eye3 :: "real list list" where
  "eye3 = [[1, 0, 0], [0, 1, 0], [0, 0, 1]]"

text \<open>
  \<^verbatim>\<open>torch.cdist(x, y)\<close>: the Euclidean distances between the rows, as exact
  real numbers. The library routine computes them in floating point, for more
  than 25 rows through a matrix product, and its result can differ from the
  exact distance by rounding: the distance of a row to itself can come out as
  a tiny number different from zero. The statements on \<^verbatim>\<open>_get_r_data\<close> and on
  the matrices built from it are therefore made for every distance matrix, by
  way of \<open>r_data_of\<close> below.
\<close>

definition cdist :: "real list list \<Rightarrow> real list list \<Rightarrow> fl list list" where
  "cdist xs ys =
     map (\<lambda>a. map (\<lambda>b. fsqrt (Some (sum_list (map2 (\<lambda>x y. (x - y)\<^sup>2) a b)))) ys) xs"

text \<open>Element by element operations on two matrices of one shape.\<close>

definition ew2 :: "('a \<Rightarrow> 'b \<Rightarrow> 'c) \<Rightarrow> 'a list list \<Rightarrow> 'b list list \<Rightarrow> 'c list list" where
  "ew2 f A B = map2 (map2 f) A B"

text \<open>
  \<^verbatim>\<open>
  n_atoms = len(xyz)
  rr_mat = xyz[:, None, :] - xyz[None, :, :]
  r_mat = _torch.cdist(xyz, xyz)
  r_inv = _torch.where(r_mat == 0.0, 0.0, 1.0 / r_mat)
  r_inv1 = r_inv.repeat_interleave(3, dim=1)
  r_inv2 = r_inv1.repeat_interleave(3, dim=0)
  outer = _torch.einsum("bik,bij->bjik", rr_mat, rr_mat).reshape((n_atoms * 3, n_atoms * 3))
  id2 = _torch.tile(_torch.tile(_torch.eye(3).T, (1, n_atoms)).T, (1, n_atoms))
  t01 = r_inv
  t21 = -id2 * r_inv2**3
  t22 = 3 * outer * r_inv2**5
  return (r_mat, t01, t21, t22)
  \<close>
  The positions are rows of three coordinates. The body of the function is
  \<open>r_data_of\<close>, with the distance matrix \<open>r_mat\<close> that the library call returned
  as its first argument; \<open>get_r_data\<close> is the function itself, on the exact
  distances.
\<close>

definition r_data_of ::
  "fl list list \<Rightarrow> real list list \<Rightarrow> fl list list \<times> fl list list \<times> fl list list \<times> fl list list"
where
  "r_data_of r_mat xyz =
     (let n_atoms = length xyz;
          rr_mat = map (\<lambda>a. map (\<lambda>b. map2 (\<lambda>x y. x - y) a b) xyz) xyz;
          r_inv = map (map (\<lambda>r. torch_where (r = Some 0) (Some 0) (fdiv (Some 1) r))) r_mat;
          r_inv1 = map (repeat_interleave 3) r_inv;
          r_inv2 = repeat_interleave 3 r_inv1;
          outer = concat (map (\<lambda>rr_b.
                    map (\<lambda>j. concat (map (\<lambda>rr_bi. map (\<lambda>k. rr_bi ! k * rr_bi ! j) [0..<3]) rr_b))
                      [0..<3]) rr_mat);
          id2 = tile_cols n_atoms (transpose (tile_cols n_atoms (transpose eye3)));
          t01 = r_inv;
          t21 = ew2 (\<lambda>d r. fmul (Some (- d)) (fpow r 3)) id2 r_inv2;
          t22 = ew2 (\<lambda>out r. fmul (Some (3 * out)) (fpow r 5)) outer r_inv2
      in (r_mat, t01, t21, t22))"

definition get_r_data ::
  "real list list \<Rightarrow> fl list list \<times> fl list list \<times> fl list list \<times> fl list list"
where
  "get_r_data xyz = r_data_of (cdist xyz xyz) xyz"

section \<open>Charge equilibration: \<^verbatim>\<open>_get_T0_gaussian\<close>, \<^verbatim>\<open>_get_A_QEq\<close>, \<^verbatim>\<open>_get_q\<close>\<close>

text \<open>The error function \<^verbatim>\<open>torch.erf\<close>, by its power series.\<close>

definition erf :: "real \<Rightarrow> real" where
  "erf x = 2 / sqrt pi * (\<Sum>n. (- 1) ^ n * x ^ (2 * n + 1) / (fact n * real (2 * n + 1)))"

fun ferf :: "fl \<Rightarrow> fl" where
  "ferf (Some x) = Some (erf x)"
| "ferf None = None"

text \<open>\<^verbatim>\<open>return t01 * _torch.erf(r / (s_mat * _torch.sqrt(_torch.tensor([2.0]))))\<close>\<close>

definition get_T0_gaussian :: "fl list list \<Rightarrow> fl list list \<Rightarrow> fl list list \<Rightarrow> fl list list" where
  "get_T0_gaussian t01 r s_mat =
     ew2 fmul t01 (ew2 (\<lambda>r_ij s_ij. ferf (fdiv r_ij (fmul s_ij (fsqrt (Some 2))))) r s_mat)"

text \<open>\<^verbatim>\<open>torch.diag(v)\<close>: the square matrix with \<open>v\<close> on its diagonal and zeros elsewhere.\<close>

definition diag :: "fl list \<Rightarrow> fl list list" where
  "diag v = map (\<lambda>i. map (\<lambda>j. if i = j then v ! i else Some 0) [0..<length v]) [0..<length v]"

text \<open>
  \<^verbatim>\<open>
  s_gauss = s * self._a_QEq
  s2 = s_gauss**2
  s_mat = _torch.sqrt(s2[:, None] + s2[None, :])
  A = self._get_T0_gaussian(r_data[1], r_data[0], s_mat)
  new_diag = _torch.ones_like(A.diagonal()) * (1.0 / (s_gauss * _torch.sqrt(_torch.tensor([_torch.pi]))))
  mask = _torch.diag(_torch.ones_like(new_diag))
  A = mask * _torch.diag(new_diag) + (1.0 - mask) * A
  x, y = A.shape
  B = _torch.ones(x + 1, y + 1)
  B[:x, :y] = A
  B[-1, -1] = 0.0
  return B
  \<close>
  The tensors are taken to have the shapes of the docstring: \<open>N \<times> N\<close> matrices in
  \<open>r_data\<close> for \<open>N\<close> widths.
\<close>

definition get_A_QEq ::
  "emle \<Rightarrow> fl list list \<times> fl list list \<times> fl list list \<times> fl list list \<Rightarrow> fl list \<Rightarrow> fl list list"
where
  "get_A_QEq self r_data s =
     (let s_gauss = map (\<lambda>x. fmul x (Some (a_QEq self))) s;
          s2 = map (\<lambda>x. fpow x 2) s_gauss;
          s_mat = map (\<lambda>a. map (\<lambda>b. fsqrt (fadd a b)) s2) s2;
          A = get_T0_gaussian (fst (snd r_data)) (fst r_data) s_mat;
          new_diag = map (\<lambda>x. fmul (Some 1) (fdiv (Some 1) (fmul x (fsqrt (Some pi))))) s_gauss;
          mask = diag (map (\<lambda>x. Some 1) new_diag);
          A = ew2 fadd (ew2 fmul mask (diag new_diag)) (ew2 fmul (map (map (fsub (Some 1))) mask) A);
          x = length A;
          y = (if A = [] then 0 else length (hd A))
      in map (\<lambda>row. row @ [Some 1]) A @ [replicate y (Some 1) @ [Some 0]])"

section \<open>Dense linear solve: \<^verbatim>\<open>torch.linalg.solve\<close>\<close>

text \<open>
  The library routine is an LU factorisation with partial pivoting followed by
  substitution. It is modelled on the augmented rows (coefficients and
  right-hand side) by Gaussian elimination: the pivot of a column is the first
  row whose leading coefficient has the largest absolute value, it is swapped
  to the top, the column is eliminated from the other rows, and the unknown is
  found by back substitution. A column without a nonzero pivot means a singular
  matrix.
\<close>

definition dot :: "real list \<Rightarrow> real list \<Rightarrow> real" where
  "dot xs ys = sum_list (map2 (*) xs ys)"

definition pivot_index :: "(real list \<times> real) list \<Rightarrow> nat" where
  "pivot_index rows =
     (let heads = map (\<lambda>(r, b). \<bar>hd r\<bar>) rows
      in length (takeWhile (\<lambda>h. h \<noteq> Max (set heads)) heads))"

definition select_pivot ::
  "(real list \<times> real) list \<Rightarrow> ((real list \<times> real) \<times> (real list \<times> real) list) option"
where
  "select_pivot rows =
     (if rows = [] then None
      else let k = pivot_index rows
           in if hd (fst (rows ! k)) = 0 then None
              else Some (rows ! k, tl (rows[k := hd rows])))"

definition eliminate :: "real list \<times> real \<Rightarrow> real list \<times> real \<Rightarrow> real list \<times> real" where
  "eliminate p r =
     (let f = hd (fst r) / hd (fst p)
      in (map2 (\<lambda>x y. x - f * y) (tl (fst r)) (tl (fst p)), snd r - f * snd p))"

fun solve_rows :: "nat \<Rightarrow> (real list \<times> real) list \<Rightarrow> real list option" where
  "solve_rows 0 rows = Some []"
| "solve_rows (Suc n) rows =
     (case select_pivot rows of
        None \<Rightarrow> None
      | Some (p, rest) \<Rightarrow>
          (case solve_rows n (map (eliminate p) rest) of
             None \<Rightarrow> None
           | Some xs \<Rightarrow> Some ((snd p - dot (tl (fst p)) xs) / hd (fst p) # xs)))"

text \<open>
  \<^verbatim>\<open>torch.linalg.solve(A, b)\<close> for a square matrix and a vector: a shape that
  does not fit raises RuntimeError, a matrix that is singular in exact
  arithmetic raises LinAlgError (in floating point the factorisation of such a
  matrix can also find a tiny pivot and return numbers). When an entry of the
  matrix or of the vector is \<open>None\<close>, the model follows the call no further and
  says \<open>NonFinite\<close>: this is no exception of the program, where the library
  returns a vector with NaNs (or reports a singular matrix) and the caller goes
  on with it. A result \<open>Inl NonFinite\<close> of the model therefore says only that
  an infinity or a NaN reached a linear solve.
\<close>

definition solve :: "fl list list \<Rightarrow> fl list \<Rightarrow> error + fl list" where
  "solve A b =
     (if length b \<noteq> length A \<or> \<not> list_all (\<lambda>row. length row = length A) A then Inl RuntimeError
      else case (those (map those A), those b) of
             (Some A', Some b') \<Rightarrow>
               (case solve_rows (length A) (zip A' b') of
                  None \<Rightarrow> Inl LinAlgError
                | Some x \<Rightarrow> Inr (map Some x))
           | _ \<Rightarrow> Inl NonFinite)"

text \<open>
  \<^verbatim>\<open>
  A = self._get_A_QEq(r_data, s)
  b = _torch.hstack([-chi, self._q_total])
  return _torch.linalg.solve(A, b)[:-1]
  \<close>
\<close>

definition get_q ::
  "emle \<Rightarrow> fl list list \<times> fl list list \<times> fl list list \<times> fl list list \<Rightarrow> fl list \<Rightarrow> fl list
     \<Rightarrow> error + fl list"
where
  "get_q self r_data s chi =
     (let A = get_A_QEq self r_data s;
          b = map fneg chi @ [Some (q_total self)]
      in case solve A b of
           Inl e \<Rightarrow> Inl e
         | Inr x \<Rightarrow> Inr (butlast x))"

section \<open>Induced dipoles: \<^verbatim>\<open>_get_T2_thole\<close>, \<^verbatim>\<open>_get_A_thole\<close>, \<^verbatim>\<open>_get_mu_ind\<close>\<close>

text \<open>\<^verbatim>\<open>_lambda3\<close>: \<^verbatim>\<open>1 - exp(-au3)\<close>; \<^verbatim>\<open>_lambda5\<close>: \<^verbatim>\<open>1 - (1 + au3) * exp(-au3)\<close>;
  on one element.\<close>

definition lambda3 :: "fl \<Rightarrow> fl" where
  "lambda3 au3 = fsub (Some 1) (fexp (fneg au3))"

definition lambda5 :: "fl \<Rightarrow> fl" where
  "lambda5 au3 = fsub (Some 1) (fmul (fadd (Some 1) au3) (fexp (fneg au3)))"

text \<open>\<^verbatim>\<open>return cls._lambda3(au3) * tr21 + cls._lambda5(au3) * tr22\<close>\<close>

definition get_T2_thole :: "fl list list \<Rightarrow> fl list list \<Rightarrow> fl list list \<Rightarrow> fl list list" where
  "get_T2_thole tr21 tr22 au3 =
     ew2 fadd (ew2 fmul (map (map lambda3) au3) tr21) (ew2 fmul (map (map lambda5) au3) tr22)"

text \<open>
  \<^verbatim>\<open>
  v = -60 * q_val * s**3
  alpha = v * k
  alphap = alpha * self._a_Thole
  alphap_mat = alphap[:, None] * alphap[None, :]
  au3 = r_data[0] ** 3 / _torch.sqrt(alphap_mat)
  au31 = au3.repeat_interleave(3, dim=1)
  au32 = au31.repeat_interleave(3, dim=0)
  A = -self._get_T2_thole(r_data[2], r_data[3], au32)
  new_diag = 1.0 / alpha.repeat_interleave(3)
  mask = _torch.diag(_torch.ones_like(new_diag))
  A = mask * _torch.diag(new_diag) + (1.0 - mask) * A
  return A
  \<close>
\<close>

definition get_A_thole ::
  "emle \<Rightarrow> fl list list \<times> fl list list \<times> fl list list \<times> fl list list \<Rightarrow> fl list \<Rightarrow> fl list
     \<Rightarrow> fl list \<Rightarrow> fl list list"
where
  "get_A_thole self r_data s q_val k =
     (let v = map2 (\<lambda>q x. fmul (fmul (Some (- 60)) q) (fpow x 3)) q_val s;
          alpha = map2 fmul v k;
          alphap = map (\<lambda>a. fmul a (Some (a_Thole self))) alpha;
          alphap_mat = map (\<lambda>a. map (\<lambda>b. fmul a b) alphap) alphap;
          au3 = ew2 (\<lambda>r ap. fdiv (fpow r 3) (fsqrt ap)) (fst r_data) alphap_mat;
          au31 = map (repeat_interleave 3) au3;
          au32 = repeat_interleave 3 au31;
          A = map (map fneg) (get_T2_thole (fst (snd (snd r_data))) (snd (snd (snd r_data))) au32);
          new_diag = map (fdiv (Some 1)) (repeat_interleave 3 alpha);
          mask = diag (map (\<lambda>x. Some 1) new_diag)
      in ew2 fadd (ew2 fmul mask (diag new_diag)) (ew2 fmul (map (map (fsub (Some 1))) mask) A))"

section \<open>The mesh of external charges: \<^verbatim>\<open>_get_mesh_data\<close> and the Slater kernels\<close>

text \<open>\<^verbatim>\<open>return (1 - (1 + r / (s * 2)) * _torch.exp(-r / s)) / r\<close>, for a distance
  matrix and one width per row (\<^verbatim>\<open>s[:, None]\<close>).\<close>

definition T0_slater_elem :: "fl \<Rightarrow> fl \<Rightarrow> fl" where
  "T0_slater_elem r s =
     fdiv (fsub (Some 1) (fmul (fadd (Some 1) (fdiv r (fmul s (Some 2)))) (fexp (fdiv (fneg r) s)))) r"

definition get_T0_slater :: "fl list list \<Rightarrow> fl list \<Rightarrow> fl list list" where
  "get_T0_slater r s = map2 (\<lambda>r_i s_i. map (\<lambda>r_im. T0_slater_elem r_im s_i) r_i) r s"

text \<open>
  \<^verbatim>\<open>
  return (cls._get_T0_slater(r, s) * r
          - _torch.exp(-r / s) / s * (0.5 + r / (s * 2)) * r)
  \<close>
\<close>

definition get_f1_slater :: "fl list list \<Rightarrow> fl list \<Rightarrow> fl list list" where
  "get_f1_slater r s =
     map2 (\<lambda>r_i s_i. map (\<lambda>r_im.
         fsub (fmul (T0_slater_elem r_im s_i) r_im)
              (fmul (fmul (fdiv (fexp (fdiv (fneg r_im) s_i)) s_i)
                          (fadd (Some (1 / 2)) (fdiv r_im (fmul s_i (Some 2)))))
                    r_im)) r_i) r s"

text \<open>
  \<^verbatim>\<open>
  rr = xyz_mesh[None, :, :] - xyz[:, None, :]
  r = _torch.linalg.norm(rr, ord=2, dim=2)
  return (1.0 / r, cls._get_T0_slater(r, s[:, None]), -rr / r[:, :, None] ** 3)
  \<close>
\<close>

definition get_mesh_data ::
  "real list list \<Rightarrow> real list list \<Rightarrow> fl list
     \<Rightarrow> fl list list \<times> fl list list \<times> fl list list list"
where
  "get_mesh_data xyz xyz_mesh s =
     (let rr = map (\<lambda>a. map (\<lambda>m. map2 (\<lambda>x y. x - y) m a) xyz_mesh) xyz;
          r = map (map (\<lambda>v. fsqrt (Some (sum_list (map (\<lambda>x. x\<^sup>2) v))))) rr
      in (map (map (fdiv (Some 1))) r,
          get_T0_slater r s,
          map2 (map2 (\<lambda>v r_im. map (\<lambda>x. fdiv (Some (- x)) (fpow r_im 3)) v)) rr r))"

text \<open>
  \<^verbatim>\<open>
  A = self._get_A_thole(r_data, s, q_val, k)
  r = 1.0 / mesh_data[0]
  f1 = self._get_f1_slater(r, s[:, None] * 2.0)
  fields = _torch.sum(mesh_data[2] * f1[:, :, None] * q[:, None], dim=1).flatten()
  mu_ind = _torch.linalg.solve(A, fields)
  return mu_ind.reshape((-1, 3))
  \<close>
\<close>

fun chunks3 :: "'a list \<Rightarrow> 'a list list" where
  "chunks3 (x # y # z # rest) = [x, y, z] # chunks3 rest"
| "chunks3 _ = []"

definition get_mu_ind ::
  "emle \<Rightarrow> fl list list \<times> fl list list \<times> fl list list \<times> fl list list
     \<Rightarrow> fl list list \<times> fl list list \<times> fl list list list
     \<Rightarrow> real list \<Rightarrow> fl list \<Rightarrow> fl list \<Rightarrow> fl list \<Rightarrow> error + fl list list"
where
  "get_mu_ind self r_data mesh_data q s q_val k =
     (let A = get_A_thole self r_data s q_val k;
          r = map (map (fdiv (Some 1))) (fst mesh_data);
          f1 = get_f1_slater r (map (\<lambda>x. fmul x (Some 2)) s);
          fields = concat (map2 (\<lambda>T_i f1_i.
                      map (\<lambda>c. fsum (map (\<lambda>(T_im, f1_im, q_m). fmul (fmul (T_im ! c) f1_im) (Some q_m))
                                         (zip T_i (zip f1_i q)))) [0..<3])
                    (snd (snd mesh_data)) f1)
      in case solve A fields of
           Inl e \<Rightarrow> Inl e
         | Inr mu_ind \<Rightarrow> Inr (chunks3 mu_ind))"

section \<open>Potentials and energies: \<^verbatim>\<open>_get_vpot_q\<close>, \<^verbatim>\<open>_get_vpot_mu\<close>, \<^verbatim>\<open>forward\<close>\<close>

text \<open>\<^verbatim>\<open>return _torch.sum(T0 * q[:, None], dim=0)\<close>: for every external site, the
  sum over the atoms. The number of sites is read from the first row.\<close>

definition get_vpot_q :: "fl list \<Rightarrow> fl list list \<Rightarrow> fl list" where
  "get_vpot_q q T0 =
     map (\<lambda>m. fsum (map2 (\<lambda>T0_i q_i. fmul (T0_i ! m) q_i) T0 q))
       [0..<(if T0 = [] then 0 else length (hd T0))]"

text \<open>\<^verbatim>\<open>return -_torch.tensordot(T1, mu, ((0, 2), (0, 1)))\<close>\<close>

definition get_vpot_mu :: "fl list list \<Rightarrow> fl list list list \<Rightarrow> fl list" where
  "get_vpot_mu mu T1 =
     map (\<lambda>m. fneg (fsum (map2 (\<lambda>T1_i mu_i. fdot (T1_i ! m) mu_i) T1 mu)))
       [0..<(if T1 = [] then 0 else length (hd T1))]"

text \<open>
  The part that \<^verbatim>\<open>EMLE.forward\<close> and \<^verbatim>\<open>ANI2xEMLE.forward\<close> have in common,
  from the features of the atoms to the two energies:
  \<^verbatim>\<open>
  aev = <features>[:, self._aev_mask]
  aev = aev / _torch.linalg.norm(aev, ord=2, dim=1, keepdim=True)
  s = self._gpr(aev, self._ref_mean_s, self._c_s, species_id)
  chi = self._gpr(aev, self._ref_mean_chi, self._c_chi, species_id)
  xyz_qm_bohr = xyz_qm * ANGSTROM_TO_BOHR
  xyz_mm_bohr = xyz_mm * ANGSTROM_TO_BOHR
  q_core = self._q_core[species_id]
  if self._alpha_mode == "species":
      k = self._k[species_id]
  else:
      k = self._gpr(aev, self._ref_mean_k, self._c_k, species_id)
  r_data = self._get_r_data(xyz_qm_bohr)
  mesh_data = self._get_mesh_data(xyz_qm_bohr, xyz_mm_bohr, s)
  q = self._get_q(r_data, s, chi)
  q_val = q - q_core
  mu_ind = self._get_mu_ind(r_data, mesh_data, charges_mm, s, q_val, k)
  vpot_q_core = self._get_vpot_q(q_core, mesh_data[0])
  vpot_q_val = self._get_vpot_q(q_val, mesh_data[1])
  vpot_static = vpot_q_core + vpot_q_val
  E_static = _torch.sum(vpot_static @ charges_mm)
  vpot_ind = self._get_vpot_mu(mu_ind, mesh_data[2])
  E_ind = _torch.sum(vpot_ind @ charges_mm) * 0.5
  \<close>
\<close>

definition bind :: "error + 'a \<Rightarrow> ('a \<Rightarrow> error + 'b) \<Rightarrow> error + 'b" where
  "bind m f = (case m of Inl e \<Rightarrow> Inl e | Inr x \<Rightarrow> f x)"

definition energies ::
  "emle \<Rightarrow> int list \<Rightarrow> real list list \<Rightarrow> real list \<Rightarrow> real list list \<Rightarrow> real list list
     \<Rightarrow> error + fl \<times> fl"
where
  "energies self species_id features charges_mm xyz_qm xyz_mm =
     (if \<not> list_all (\<lambda>row. length row = length (aev_mask self)) features then Inl IndexError
      else
        let aev = map (masked_select (aev_mask self)) features;
            aev = map (\<lambda>row. map (\<lambda>x. fdiv (Some x) (fsqrt (Some (sum_list (map (\<lambda>y. y\<^sup>2) row))))) row) aev
        in bind (gpr self aev (ref_mean_s self) (c_s self) species_id) (\<lambda>s.
           bind (gpr self aev (ref_mean_chi self) (c_chi self) species_id) (\<lambda>chi.
           let xyz_qm_bohr = to_bohr xyz_qm;
               xyz_mm_bohr = to_bohr xyz_mm
           in bind (index_tensor (q_core self) species_id) (\<lambda>q_core.
              bind (if mode self = Species
                    then bind (index_tensor (k_scale self) species_id) (\<lambda>k. Inr (fin k))
                    else gpr self aev (ref_mean_k self) (c_k self) species_id) (\<lambda>k.
              let r_data = get_r_data xyz_qm_bohr;
                  mesh_data = get_mesh_data xyz_qm_bohr xyz_mm_bohr s
              in bind (get_q self r_data s chi) (\<lambda>q.
                 let q_val = map2 fsub q (fin q_core)
                 in bind (get_mu_ind self r_data mesh_data charges_mm s q_val k) (\<lambda>mu_ind.
                    let vpot_q_core = get_vpot_q (fin q_core) (fst mesh_data);
                        vpot_q_val = get_vpot_q q_val (fst (snd mesh_data));
                        vpot_static = map2 fadd vpot_q_core vpot_q_val;
                        E_static = fdot vpot_static (fin charges_mm);
                        vpot_ind = get_vpot_mu mu_ind (snd (snd mesh_data));
                        E_ind = fmul (fdot vpot_ind (fin charges_mm)) (Some (1 / 2))
                    in Inr (E_static, E_ind))))))))"

text \<open>
  \<^verbatim>\<open>EMLE.forward\<close>:
  \<^verbatim>\<open>
  if len(xyz_mm) == 0:
      return _torch.zeros(2, dtype=xyz_qm.dtype, device=xyz_qm.device)
  species_id = self._species_map[atomic_numbers]
  aev = self._aev_computer((zid, xyz))[1][0][:, self._aev_mask]
  ...
  return _torch.stack([E_static, E_ind])
  \<close>
\<close>

definition forward ::
  "emle \<Rightarrow> int list \<Rightarrow> real list \<Rightarrow> real list list \<Rightarrow> real list list \<Rightarrow> error + fl list"
where
  "forward self atomic_numbers charges_mm xyz_qm xyz_mm =
     (if length xyz_mm = 0 then Inr [Some 0, Some 0]
      else bind (species_id_of atomic_numbers) (\<lambda>species_id.
           bind (aev_computer self species_id xyz_qm) (\<lambda>features.
           bind (energies self species_id features charges_mm xyz_qm xyz_mm) (\<lambda>(E_static, E_ind).
           Inr [E_static, E_ind]))))"

text \<open>
  \<^verbatim>\<open>ANI2xEMLE.forward\<close>. The ANI2x model is external: from atomic numbers and
  positions it returns the in-vacuo energy and, through the forward hook, the
  features of the atoms; or it raises.
  \<^verbatim>\<open>
  species_id = self._species_map[atomic_numbers]
  ...
  E_vac = self._ani2x((atomic_numbers, xyz)).energies[0]
  if len(xyz_mm) == 0:
      zero = _torch.tensor(0.0, dtype=xyz_qm.dtype, device=xyz_qm.device)
      return _torch.stack([E_vac, zero, zero])
  aev = self._ani2x.aev_computer._aev[:, self._aev_mask]
  ...
  return _torch.stack([E_vac, E_static, E_ind])
  \<close>
\<close>

definition ani2x_forward ::
  "emle \<Rightarrow> (int list \<Rightarrow> real list list \<Rightarrow> error + real \<times> real list list)
     \<Rightarrow> int list \<Rightarrow> real list \<Rightarrow> real list list \<Rightarrow> real list list \<Rightarrow> error + fl list"
where
  "ani2x_forward self ani2x atomic_numbers charges_mm xyz_qm xyz_mm =
     bind (species_id_of atomic_numbers) (\<lambda>species_id.
     bind (ani2x atomic_numbers xyz_qm) (\<lambda>(E_vac, features).
     if length xyz_mm = 0 then Inr [Some E_vac, Some 0, Some 0]
     else bind (energies self species_id features charges_mm xyz_qm xyz_mm) (\<lambda>(E_static, E_ind).
          Inr [Some E_vac, E_static, E_ind])))"

section \<open>Names for the parts of the matrices\<close>

text \<open>The intermediate tensors of \<^verbatim>\<open>_get_A_QEq\<close>, named for the statements
  below: the broadened widths, the new diagonal, the Gaussian kernel and the
  \<open>N \<times> N\<close> block before the constraint row and column are added.\<close>

definition s_gauss :: "emle \<Rightarrow> fl list \<Rightarrow> fl list" where
  "s_gauss self s = map (\<lambda>x. fmul x (Some (a_QEq self))) s"

definition new_diag_QEq :: "emle \<Rightarrow> fl list \<Rightarrow> fl list" where
  "new_diag_QEq self s =
     map (\<lambda>x. fmul (Some 1) (fdiv (Some 1) (fmul x (fsqrt (Some pi))))) (s_gauss self s)"

definition s_mat_QEq :: "emle \<Rightarrow> fl list \<Rightarrow> fl list list" where
  "s_mat_QEq self s =
     map (\<lambda>a. map (\<lambda>b. fsqrt (fadd a b)) (map (\<lambda>x. fpow x 2) (s_gauss self s)))
       (map (\<lambda>x. fpow x 2) (s_gauss self s))"

definition T0_QEq ::
  "emle \<Rightarrow> fl list list \<times> fl list list \<times> fl list list \<times> fl list list \<Rightarrow> fl list \<Rightarrow> fl list list"
where
  "T0_QEq self r_data s = get_T0_gaussian (fst (snd r_data)) (fst r_data) (s_mat_QEq self s)"

definition A_block ::
  "emle \<Rightarrow> fl list list \<times> fl list list \<times> fl list list \<times> fl list list \<Rightarrow> fl list \<Rightarrow> fl list list"
where
  "A_block self r_data s =
     ew2 fadd (ew2 fmul (diag (map (\<lambda>x. Some 1) (new_diag_QEq self s))) (diag (new_diag_QEq self s)))
       (ew2 fmul (map (map (fsub (Some 1))) (diag (map (\<lambda>x. Some 1) (new_diag_QEq self s))))
          (T0_QEq self r_data s))"

text \<open>One entry of \<^verbatim>\<open>_get_T0_gaussian\<close> as a function of the entries \<open>t\<close> of
  \<^verbatim>\<open>t01\<close>, \<open>r\<close> of the distance matrix and \<open>s_ij\<close> of the matrix of combined
  widths.\<close>

definition T0_gaussian_entry :: "real \<Rightarrow> real \<Rightarrow> real \<Rightarrow> real" where
  "T0_gaussian_entry t r s_ij = t * erf (r / (s_ij * sqrt 2))"

text \<open>An \<open>n \<times> n\<close> matrix.\<close>

definition square :: "nat \<Rightarrow> 'a list list \<Rightarrow> bool" where
  "square n M = (length M = n \<and> list_all (\<lambda>row. length row = n) M)"

text \<open>A matrix all of whose entries are finite numbers: no entry was computed
  by a division by zero or a square root of a negative number.\<close>

definition all_finite :: "fl list list \<Rightarrow> bool" where
  "all_finite M = list_all (list_all (\<lambda>x. x \<noteq> None)) M"

text \<open>The rearrangement of a tensor's entries along an index list \<open>p\<close>, used to
  state permutation properties: entry \<open>j\<close> of the result is entry \<open>p ! j\<close> of
  the tensor.\<close>

definition reorder :: "nat list \<Rightarrow> 'a list \<Rightarrow> 'a list" where
  "reorder p xs = map (\<lambda>i. xs ! i) p"

text \<open>A small model object for examples: two species, the first with one
  reference and the second with two.\<close>

definition example_model :: emle where
  "example_model =
     \<lparr> mode = Species,
       aev_computer = (\<lambda>zid xyz. Inr (map (\<lambda>p. [1, 0]) xyz)),
       aev_mask = [True, True],
       q_core = [1, 4],
       a_QEq = 1,
       a_Thole = 2,
       k_scale = [1, 1],
       q_total = 1,
       ref_features = [[[1, 0], [0, 0]], [[1, 0], [0, 1]]],
       n_ref = [1, 2],
       ref_mean_s = [Some 1, Some 2],
       ref_mean_chi = [Some 0, Some 0],
       c_s = Mat [[Some 0, Some 5], [Some 3, Some 4]],
       c_chi = Mat [[Some 0, Some 0], [Some 0, Some 0]],
       ref_mean_k = [],
       c_k = Vec [] \<rparr>"

section \<open>Properties\<close>

subsection \<open>The species table\<close>

lemma species_map_value:
  "species_map = [- 1, 0, - 1, - 1, - 1, - 1, 1, 2, 3, - 1, - 1, - 1, - 1, - 1, - 1, - 1, 4]"
  by (simp add: species_map_def species_def enumerate_eq_zip upt_rec eval_nat_numeral)

lemma length_species_map: "length species_map = 17"
  by (simp add: species_map_value)

subsection \<open>Units\<close>




















subsection \<open>Gaussian process regression\<close>

lemma masked_assign_map:
  "length ms = length xs \<Longrightarrow> length rs = length xs \<Longrightarrow>
   masked_assign ms (map f (masked_select ms xs)) rs =
   map (\<lambda>(m, x, r). if m then f x else r) (zip ms (zip xs rs))"
proof (induction ms arbitrary: xs rs)
  case Nil
  then show ?case by simp
next
  case (Cons m ms)
  then obtain x xs' r rs' where "xs = x # xs'" "rs = r # rs'"
    by (metis length_Suc_conv)
  with Cons show ?case by simp
qed

lemma gpr_iter_ok:
  assumes "i < length (ref_features self)" "i < length rows" "i < length ref_mean"
    and "length zid = length mol_features" "length result = length zid"
  shows "gpr_iter self mol_features ref_mean (Mat rows) zid i result =
         Inr (map (\<lambda>(z, a, r). if z = int i then gpr_atom self ref_mean rows i a else r)
                (zip zid (zip mol_features result)))"
  using assms
  by (simp add: gpr_iter_def row_slice_def Let_def masked_assign_map gpr_atom_def
      zip_map1 case_prod_unfold o_def)

lemma gpr_loop_ok:
  assumes "\<forall>i\<in>set js. i < length (ref_features self) \<and> i < length rows \<and> i < length ref_mean"
    and "length zid = length mol_features" "length result = length zid"
  shows "gpr_loop self mol_features ref_mean (Mat rows) zid js result =
         Inr (map (\<lambda>(z, a, r). if z \<in> int ` set js then gpr_atom self ref_mean rows (nat z) a else r)
                (zip zid (zip mol_features result)))"
  using assms
proof (induction js arbitrary: result)
  case Nil
  then show ?case by (auto intro!: nth_equalityI)
next
  case (Cons i js)
  let ?r = "map (\<lambda>(z, a, r). if z = int i then gpr_atom self ref_mean rows i a else r)
                (zip zid (zip mol_features result))"
  have it: "gpr_iter self mol_features ref_mean (Mat rows) zid i result = Inr ?r"
    using Cons.prems by (intro gpr_iter_ok) auto
  have len: "length ?r = length zid"
    using Cons.prems by simp
  have "gpr_loop self mol_features ref_mean (Mat rows) zid js ?r =
        Inr (map (\<lambda>(z, a, r). if z \<in> int ` set js then gpr_atom self ref_mean rows (nat z) a else r)
                (zip zid (zip mol_features ?r)))"
    using Cons.prems len by (intro Cons.IH) auto
  moreover have "map (\<lambda>(z, a, r). if z \<in> int ` set js then gpr_atom self ref_mean rows (nat z) a else r)
                (zip zid (zip mol_features ?r)) =
        map (\<lambda>(z, a, r). if z \<in> int ` set (i # js) then gpr_atom self ref_mean rows (nat z) a else r)
                (zip zid (zip mol_features result))"
    using Cons.prems(2,3) by (intro nth_equalityI) auto
  ultimately show ?case using it by simp
qed

lemma gpr_ok:
  assumes "length (n_ref self) \<le> length (ref_features self)"
    and "length (n_ref self) \<le> length rows"
    and "length (n_ref self) \<le> length ref_mean"
    and "length zid = length mol_features"
  shows "gpr self mol_features ref_mean (Mat rows) zid =
         Inr (map2 (\<lambda>z a. if 0 \<le> z \<and> z < int (length (n_ref self))
                            then gpr_atom self ref_mean rows (nat z) a else Some 0)
                zid mol_features)"
proof -
  have "gpr self mol_features ref_mean (Mat rows) zid =
        Inr (map (\<lambda>(z, a, r). if z \<in> int ` set [0..<length (n_ref self)]
                                 then gpr_atom self ref_mean rows (nat z) a else r)
                (zip zid (zip mol_features (replicate (length zid) (Some 0)))))"
    unfolding gpr_def using assms by (intro gpr_loop_ok) auto
  moreover have "\<And>z. z \<in> int ` set [0..<length (n_ref self)] \<longleftrightarrow> 0 \<le> z \<and> z < int (length (n_ref self))"
  proof -
    fix z :: int
    have "0 \<le> z \<and> z < int (length (n_ref self)) \<Longrightarrow> z \<in> int ` set [0..<length (n_ref self)]"
      by (rule image_eqI [of _ _ "nat z"]) auto
    then show "z \<in> int ` set [0..<length (n_ref self)] \<longleftrightarrow> 0 \<le> z \<and> z < int (length (n_ref self))"
      by auto
  qed
  ultimately show ?thesis
    using assms(4) by (auto intro!: nth_equalityI)
qed


lemma fsum_fin: "fsum (fin xs) = Some (sum_list xs)"
  by (induction xs) (simp_all add: fsum_def fin_def)

lemma map2_fmul_fin: "map2 fmul (fin xs) (fin ys) = fin (map2 (*) xs ys)"
proof (induction xs arbitrary: ys)
  case Nil
  then show ?case by (simp add: fin_def)
next
  case (Cons x xs)
  then show ?case by (cases ys) (simp_all add: fin_def)
qed

lemma fdot_fin: "fdot (fin xs) (fin ys) = Some (sum_list (map2 (*) xs ys))"
  by (simp add: fdot_def map2_fmul_fin fsum_fin)

lemma sum_list_map2_nth:
  "length xs = length ys \<Longrightarrow> sum_list (map2 f xs ys) = (\<Sum>d<length xs. f (xs ! d) (ys ! d))"
proof -
  assume "length xs = length ys"
  then have "(\<Sum>d<length xs. map2 f xs ys ! d) = (\<Sum>d<length xs. f (xs ! d) (ys ! d))"
    by (intro sum.cong) simp_all
  with \<open>length xs = length ys\<close> show ?thesis
    by (simp add: sum_list_sum_nth atLeast0LessThan)
qed

lemma sum_list_map_nth:
  "sum_list (map f xs) = (\<Sum>j<length xs. f (xs ! j))"
proof -
  have "(\<Sum>j<length xs. map f xs ! j) = (\<Sum>j<length xs. f (xs ! j))"
    by (intro sum.cong) simp_all
  then show ?thesis
    by (simp add: sum_list_sum_nth atLeast0LessThan)
qed

lemma length_masked_assign: "length (masked_assign ms vs rs) = length rs"
  by (induction ms vs rs rule: masked_assign.induct) (auto split: list.splits)

text \<open>
  Claim C4. For an atom \<open>a\<close> of species \<open>z\<close>, the prediction of \<^verbatim>\<open>_gpr\<close>
  is the sum, over the first \<open>n_ref[z]\<close> reference feature vectors \<open>b\<^sub>j\<close> of the
  species, of \<open>(a \<cdot> b\<^sub>j)\<^sup>2\<close> times the coefficient \<open>c[z][j]\<close>, plus the mean
  \<open>ref_mean[z]\<close>. Only the references and coefficients below \<open>n_ref[z]\<close> occur in
  the value, and position \<open>a\<close> of the result belongs to atom \<open>a\<close> of the input.
  The coefficient tensor has rank 2, the tables have a row for every species,
  and the values read are finite.
\<close>

theorem gpr_prediction:
  assumes "length (n_ref self) \<le> length (ref_features self)"
    and "length (n_ref self) \<le> length rows"
    and "length (n_ref self) \<le> length ref_mean"
    and "length zid = length mol_features"
    and "a < length zid" and "zid ! a = int z" and "z < length (n_ref self)"
    and "n_ref self ! z \<le> length (ref_features self ! z)"
    and "\<forall>j<n_ref self ! z. length (ref_features self ! z ! j) = length fa"
    and "mol_features ! a = fin fa"
    and "take (n_ref self ! z) (rows ! z) = fin cz" and "length cz = n_ref self ! z"
    and "ref_mean ! z = Some m"
  shows "\<exists>res. gpr self mol_features ref_mean (Mat rows) zid = Inr res
           \<and> length res = length zid
           \<and> res ! a = Some ((\<Sum>j<n_ref self ! z.
                                 (\<Sum>d<length fa. fa ! d * ref_features self ! z ! j ! d)\<^sup>2 * cz ! j) + m)"
proof -
  let ?n = "n_ref self ! z"
  let ?bs = "take ?n (ref_features self ! z)"
  let ?K = "\<lambda>b. (\<Sum>d<length fa. fa ! d * b ! d)\<^sup>2"
  have len_bs: "length ?bs = ?n"
    using assms(8) by simp
  have K: "map (\<lambda>b. fpow (fdot (fin b) (fin fa)) 2) ?bs = fin (map ?K ?bs)"
  proof -
    have "fpow (fdot (fin b) (fin fa)) 2 = Some (?K b)" if "b \<in> set ?bs" for b
    proof -
      from that obtain j where j: "j < length ?bs" "?bs ! j = b"
        unfolding in_set_conv_nth by blast
      from j(1) have "j < ?n"
        by (simp only: len_bs)
      then have "length (ref_features self ! z ! j) = length fa"
        using assms(9) by blast
      moreover have "?bs ! j = ref_features self ! z ! j"
        using \<open>j < ?n\<close> by (rule nth_take)
      ultimately have "length b = length fa"
        using j(2) by simp
      then have "sum_list (map2 (*) b fa) = (\<Sum>d<length fa. fa ! d * b ! d)"
        by (simp add: sum_list_map2_nth mult.commute)
      then show ?thesis
        by (simp add: fdot_fin)
    qed
    then show ?thesis
      by (simp add: fin_def)
  qed
  have "gpr_atom self ref_mean rows z (fin fa) = Some (sum_list (map2 (*) (map ?K ?bs) cz) + m)"
  proof -
    have "gpr_atom self ref_mean rows z (fin fa) = fadd (fdot (fin (map ?K ?bs)) (fin cz)) (Some m)"
      by (simp only: gpr_atom_def K assms(11,13))
    then show ?thesis
      by (simp only: fdot_fin fadd.simps)
  qed
  also have "sum_list (map2 (*) (map ?K ?bs) cz) = (\<Sum>j<?n. ?K (?bs ! j) * cz ! j)"
    using len_bs assms(12) by (simp add: sum_list_map2_nth)
  also have "\<dots> = (\<Sum>j<?n. ?K (ref_features self ! z ! j) * cz ! j)"
    by (rule sum.cong) simp_all
  finally have atom: "gpr_atom self ref_mean rows z (fin fa) =
      Some ((\<Sum>j<?n. ?K (ref_features self ! z ! j) * cz ! j) + m)" .
  let ?res = "map2 (\<lambda>z a. if 0 \<le> z \<and> z < int (length (n_ref self))
                            then gpr_atom self ref_mean rows (nat z) a else Some 0)
                zid mol_features"
  have run: "gpr self mol_features ref_mean (Mat rows) zid = Inr ?res"
    using assms(1-4) by (rule gpr_ok)
  have la: "a < length (zip zid mol_features)"
    using assms(4,5) by simp
  have "?res ! a = (if 0 \<le> zid ! a \<and> zid ! a < int (length (n_ref self))
                    then gpr_atom self ref_mean rows (nat (zid ! a)) (mol_features ! a) else Some 0)"
    using la by (simp only: nth_map nth_zip length_zip min_less_iff_conj split_conv)
  also have "\<dots> = gpr_atom self ref_mean rows z (fin fa)"
    using assms(7) by (simp only: assms(6,10) nat_int) simp
  finally have "?res ! a = Some ((\<Sum>j<?n. ?K (ref_features self ! z ! j) * cz ! j) + m)"
    using atom by simp
  moreover have "length ?res = length zid"
    using assms(4) by simp
  ultimately show ?thesis
    using run by blast
qed


theorem gpr_prediction_witness:
  "\<exists>res. gpr example_model [[Some 1, Some 0], [Some 2, Some 1]] [Some 1, Some 2]
            (Mat [[Some 0, Some 5], [Some 3, Some 4]]) [0, 1] = Inr res
         \<and> length res = 2
         \<and> res ! 1 = Some ((2 * 1 + 1 * 0)\<^sup>2 * 3 + (2 * 0 + 1 * 1)\<^sup>2 * 4 + 2)"
  using gpr_prediction [of example_model "[[Some 0, Some 5], [Some 3, Some 4]]" "[Some 1, Some 2]"
      "[0, 1]" "[[Some 1, Some 0], [Some 2, Some 1]]" 1 1 "[2, 1]" "[3, 4]" 2]
  by (simp add: example_model_def fin_def less_Suc_eq eval_nat_numeral lessThan_Suc)


lemma gpr_iter_length:
  "gpr_iter self mol_features ref_mean c zid i result = Inr r \<Longrightarrow> length r = length result"
  by (auto simp: gpr_iter_def Let_def length_masked_assign split: if_splits sum.splits)

lemma gpr_iter_reorder:
  assumes "length zid = length mol_features" "length result = length zid"
    and "set p \<subseteq> {..<length zid}"
  shows "gpr_iter self (reorder p mol_features) ref_mean c (reorder p zid) i (reorder p result) =
         (case gpr_iter self mol_features ref_mean c zid i result of Inl e \<Rightarrow> Inl e | Inr res \<Rightarrow> Inr (reorder p res))"
proof (cases "length (ref_features self) \<le> i")
  case True
  then show ?thesis by (simp add: gpr_iter_def)
next
  case False
  note i_ok = this
  show ?thesis
  proof (cases "row_slice c i (n_ref self ! i)")
    case (Inl e)
    then show ?thesis
      using assms i_ok by (simp add: gpr_iter_def Let_def reorder_def)
  next
    case (Inr c_z)
    show ?thesis
    proof (cases "length ref_mean \<le> i")
      case True
      then show ?thesis
        using assms i_ok Inr by (simp add: gpr_iter_def Let_def reorder_def)
    next
      case False
      define f where "f = (\<lambda>a. fadd (fdot (map (\<lambda>b. fpow (fdot (fin b) a) 2)
                 (take (n_ref self ! i) (ref_features self ! i))) c_z) (ref_mean ! i))"
      have eq: "gpr_iter self ms ref_mean c zs i rs =
            Inr (map (\<lambda>(m, x, r). if m then f x else r) (zip (map (\<lambda>z. z = int i) zs) (zip ms rs)))"
        if "length zs = length ms" "length rs = length zs" for ms zs rs
        using that i_ok Inr False
        by (simp add: gpr_iter_def Let_def f_def masked_assign_map [symmetric] o_def)
      have lens: "length (reorder p zid) = length (reorder p mol_features)"
        "length (reorder p result) = length (reorder p zid)"
        by (simp_all add: reorder_def)
      have "map (\<lambda>(m, x, r). if m then f x else r)
              (zip (map (\<lambda>z. z = int i) (reorder p zid)) (zip (reorder p mol_features) (reorder p result))) =
            reorder p (map (\<lambda>(m, x, r). if m then f x else r)
              (zip (map (\<lambda>z. z = int i) zid) (zip mol_features result)))"
        using assms by (intro nth_equalityI) (auto simp: reorder_def subset_iff)
      then show ?thesis
        by (simp add: eq [OF lens] eq [OF assms(1,2)])
    qed
  qed
qed

lemma gpr_loop_reorder:
  assumes "length zid = length mol_features" "length result = length zid"
    and "set p \<subseteq> {..<length zid}"
  shows "gpr_loop self (reorder p mol_features) ref_mean c (reorder p zid) js (reorder p result) =
         (case gpr_loop self mol_features ref_mean c zid js result of Inl e \<Rightarrow> Inl e | Inr res \<Rightarrow> Inr (reorder p res))"
  using assms(2)
proof (induction js arbitrary: result)
  case Nil
  then show ?case by simp
next
  case (Cons i js)
  have step: "gpr_iter self (reorder p mol_features) ref_mean c (reorder p zid) i (reorder p result) =
         (case gpr_iter self mol_features ref_mean c zid i result of Inl e \<Rightarrow> Inl e | Inr res \<Rightarrow> Inr (reorder p res))"
    using assms(1) Cons.prems assms(3) by (rule gpr_iter_reorder)
  show ?case
  proof (cases "gpr_iter self mol_features ref_mean c zid i result")
    case (Inl e)
    then show ?thesis
      by (simp add: step)
  next
    case (Inr r)
    then have "length r = length result"
      by (rule gpr_iter_length)
    then have "length r = length zid"
      using Cons.prems by simp
    then have "gpr_loop self (reorder p mol_features) ref_mean c (reorder p zid) js (reorder p r) =
         (case gpr_loop self mol_features ref_mean c zid js r of Inl e \<Rightarrow> Inl e | Inr res \<Rightarrow> Inr (reorder p res))"
      by (rule Cons.IH)
    then show ?thesis
      by (simp add: step Inr)
  qed
qed

text \<open>
  Claim C6. The prediction of \<^verbatim>\<open>_gpr\<close> is permutation-equivariant: for a
  permutation \<open>p\<close> of the atoms, applying \<^verbatim>\<open>_gpr\<close> to the features and
  species ids rearranged along \<open>p\<close> gives the result on the original inputs
  rearranged along \<open>p\<close> (and the same exception when the original call raises).
\<close>

theorem gpr_permutation_equivariant:
  assumes "length zid = length mol_features"
    and "distinct p" and "set p = {..<length zid}"
  shows "gpr self (reorder p mol_features) ref_mean c (reorder p zid) =
         (case gpr self mol_features ref_mean c zid of
            Inl e \<Rightarrow> Inl e
          | Inr res \<Rightarrow> Inr (reorder p res))"
proof -
  let ?zeros = "replicate (length zid) (Some (0::real))"
  have len: "length (reorder p zid) = length p"
    by (simp add: reorder_def)
  have sub: "set p \<subseteq> {..<length zid}"
    using assms(3) by simp
  have "reorder p ?zeros = map (\<lambda>i. Some 0) p"
    unfolding reorder_def using sub by (intro map_cong) auto
  then have zeros: "replicate (length p) (Some 0) = reorder p ?zeros"
    by (simp add: map_replicate_const)
  have lz: "length ?zeros = length zid"
    by simp
  have "gpr_loop self (reorder p mol_features) ref_mean c (reorder p zid)
          [0..<length (n_ref self)] (reorder p ?zeros) =
        (case gpr_loop self mol_features ref_mean c zid [0..<length (n_ref self)] ?zeros of
           Inl e \<Rightarrow> Inl e
         | Inr res \<Rightarrow> Inr (reorder p res))"
    using assms(1) lz sub by (rule gpr_loop_reorder)
  then show ?thesis
    by (simp only: gpr_def len zeros)
qed

theorem gpr_permutation_equivariant_witness:
  "gpr example_model (reorder [1, 0] [[Some 1, Some 0], [Some 2, Some 1]]) [Some 1, Some 2]
       (Mat [[Some 0, Some 5], [Some 3, Some 4]]) (reorder [1, 0] [0, 1]) =
     (case gpr example_model [[Some 1, Some 0], [Some 2, Some 1]] [Some 1, Some 2]
             (Mat [[Some 0, Some 5], [Some 3, Some 4]]) [0, 1] of
        Inl e \<Rightarrow> Inl e
      | Inr res \<Rightarrow> Inr (reorder [1, 0] res))
   \<and> gpr example_model [[Some 1, Some 0], [Some 2, Some 1]] [Some 1, Some 2]
       (Mat [[Some 0, Some 5], [Some 3, Some 4]]) [0, 1] = Inr [Some 1, Some 18]"
proof -
  have "gpr example_model [[Some 1, Some 0], [Some 2, Some 1]] [Some 1, Some 2]
       (Mat [[Some 0, Some 5], [Some 3, Some 4]]) [0, 1] = Inr [Some 1, Some 18]"
    by (simp add: gpr_def gpr_iter_def row_slice_def fdot_def fsum_def fin_def
        example_model_def upt_rec)
  moreover have "distinct [1, 0::nat]" and "set [1, 0::nat] = {..<length [0, 1::int]}"
    by auto
  ultimately show ?thesis
    using gpr_permutation_equivariant [of "[0, 1]" "[[Some 1, Some 0], [Some 2, Some 1]]"
        "[1, 0]" example_model "[Some 1, Some 2]" "Mat [[Some 0, Some 5], [Some 3, Some 4]]"]
    by simp
qed

subsection \<open>The linear solve\<close>

lemma length_takeWhile_less:
  "\<exists>x\<in>set xs. \<not> P x \<Longrightarrow> length (takeWhile P xs) < length xs"
  by (induction xs) auto

lemma in_set_tlD: "x \<in> set (tl ys) \<Longrightarrow> x \<in> set ys"
  by (cases ys) auto

lemma pivot_index_less: "rows \<noteq> [] \<Longrightarrow> pivot_index rows < length rows"
proof -
  assume ne: "rows \<noteq> []"
  let ?heads = "map (\<lambda>(r, b). \<bar>hd r\<bar>) rows"
  have "Max (set ?heads) \<in> set ?heads"
    using ne by (intro Max_in) auto
  then have "length (takeWhile (\<lambda>h. h \<noteq> Max (set ?heads)) ?heads) < length ?heads"
    by (intro length_takeWhile_less) auto
  then show ?thesis
    by (simp add: pivot_index_def Let_def)
qed

lemma pivot_index_max:
  assumes "rows \<noteq> []" "(r, b) \<in> set rows"
  shows "\<bar>hd r\<bar> \<le> \<bar>hd (fst (rows ! pivot_index rows))\<bar>"
proof -
  let ?heads = "map (\<lambda>(r, b). \<bar>hd r\<bar>) rows"
  let ?k = "length (takeWhile (\<lambda>h. h \<noteq> Max (set ?heads)) ?heads)"
  have in_set: "Max (set ?heads) \<in> set ?heads"
    using assms(1) by (intro Max_in) auto
  then have k: "?k < length ?heads"
    by (intro length_takeWhile_less) auto
  then have "?heads ! ?k = Max (set ?heads)"
    using nth_length_takeWhile [of "\<lambda>h. h \<noteq> Max (set ?heads)" ?heads] by simp
  moreover have "?heads ! ?k = \<bar>hd (fst (rows ! ?k))\<bar>"
    using k by (simp add: case_prod_unfold)
  moreover have "\<bar>hd r\<bar> \<le> Max (set ?heads)"
    using assms(2) by (intro Max_ge) (auto simp: image_iff intro!: bexI [of _ "(r, b)"])
  ultimately show ?thesis
    by (simp add: pivot_index_def Let_def)
qed

lemma select_pivot_Some:
  assumes "select_pivot rows = Some (p, rest)"
  shows "p \<in> set rows" "hd (fst p) \<noteq> 0" "set rest \<subseteq> set rows"
    "set rows \<subseteq> insert p (set rest)" "Suc (length rest) = length rows"
proof -
  from assms have ne: "rows \<noteq> []"
    by (auto simp: select_pivot_def split: if_splits)
  let ?k = "pivot_index rows"
  have k: "?k < length rows"
    using ne by (rule pivot_index_less)
  from assms ne have p: "p = rows ! ?k" and rest: "rest = tl (rows[?k := hd rows])"
    and nz: "hd (fst (rows ! ?k)) \<noteq> 0"
    by (auto simp: select_pivot_def Let_def split: if_splits)
  show "p \<in> set rows" using p k by simp
  show "hd (fst p) \<noteq> 0" using p nz by simp
  obtain r rs where rows: "rows = r # rs"
    using ne by (cases rows) auto
  show "set rest \<subseteq> set rows"
  proof
    fix x assume "x \<in> set rest"
    then have "x \<in> set (rows[?k := hd rows])"
      unfolding rest by (rule in_set_tlD)
    then show "x \<in> set rows"
      using set_update_subset_insert [of rows ?k "hd rows"] rows by auto
  qed
  show "Suc (length rest) = length rows"
    unfolding rest using ne by (simp add: Suc_pred)
  show "set rows \<subseteq> insert p (set rest)"
  proof
    fix x assume "x \<in> set rows"
    then obtain i where i: "i < length rows" "rows ! i = x"
      by (auto simp: in_set_conv_nth)
    show "x \<in> insert p (set rest)"
    proof (cases "i = ?k")
      case True
      then show ?thesis using p i by simp
    next
      case False
      show ?thesis
      proof (cases i)
        case 0
        then have x: "x = r" using i rows by simp
        show ?thesis
        proof (cases ?k)
          case 0
          then show ?thesis using False \<open>i = 0\<close> by simp
        next
          case (Suc k')
          then have "rest = rs[k' := r]"
            using rest rows by simp
          moreover have "k' < length rs"
            using k Suc rows by simp
          ultimately show ?thesis
            using x by (simp add: set_update_memI)
        qed
      next
        case (Suc i')
        then have i': "i' < length rs" "rs ! i' = x"
          using i rows by auto
        show ?thesis
        proof (cases ?k)
          case 0
          then have "rest = rs" using rest rows by simp
          then show ?thesis using i' by auto
        next
          case (Suc k')
          then have "rest = rs[k' := r]"
            using rest rows by simp
          moreover have "i' \<noteq> k'"
            using False \<open>i = Suc i'\<close> Suc by simp
          ultimately have "rest ! i' = x"
            using i' by simp
          moreover have "i' < length rest"
            using \<open>rest = rs[k' := r]\<close> i' by simp
          ultimately show ?thesis
            by (metis insertI2 nth_mem)
        qed
      qed
    qed
  qed
qed

lemma dot_Cons [simp]: "dot (x # xs) (y # ys) = x * y + dot xs ys"
  by (simp add: dot_def)

lemma dot_Nil [simp]: "dot [] ys = 0" "dot xs [] = 0"
  by (simp_all add: dot_def)

lemma dot_replicate_zero [simp]: "dot xs (replicate n 0) = 0"
proof (induction xs arbitrary: n)
  case Nil
  then show ?case by simp
next
  case (Cons a xs)
  then show ?case by (cases n) simp_all
qed

lemma dot_map2_sub:
  "length as = length bs \<Longrightarrow>
   dot (map2 (\<lambda>x y. x - f * y) as bs) xs = dot as xs - f * dot bs xs"
proof (induction as bs arbitrary: xs rule: list_induct2)
  case Nil
  then show ?case by simp
next
  case (Cons a as b bs)
  then show ?case
    by (cases xs) (simp_all add: algebra_simps)
qed

lemma dot_hd_tl:
  "length r = Suc n \<Longrightarrow> dot r (x # xs) = hd r * x + dot (tl r) xs"
  by (cases r) simp_all

lemma eliminate_length:
  "length (fst p) = Suc n \<Longrightarrow> length (fst r) = Suc n \<Longrightarrow> length (fst (eliminate p r)) = n"
  by (simp add: eliminate_def Let_def)

lemma eliminate_dot:
  assumes "length (fst p) = Suc n" "length (fst r) = Suc n"
  shows "dot (fst (eliminate p r)) xs =
         dot (tl (fst r)) xs - hd (fst r) / hd (fst p) * dot (tl (fst p)) xs"
proof -
  have "length (tl (fst r)) = length (tl (fst p))"
    using assms by simp
  then show ?thesis
    unfolding eliminate_def Let_def fst_conv by (rule dot_map2_sub)
qed

lemma solve_rows_sound:
  assumes "\<forall>r\<in>set rows. length (fst r) = n" "length rows = n" "solve_rows n rows = Some x"
  shows "length x = n \<and> (\<forall>r\<in>set rows. dot (fst r) x = snd r)"
  using assms
proof (induction n arbitrary: rows x)
  case 0
  then show ?case by simp
next
  case (Suc n)
  from Suc.prems(3) obtain p rest xs where
    sel: "select_pivot rows = Some (p, rest)" and
    rec: "solve_rows n (map (eliminate p) rest) = Some xs" and
    x: "x = (snd p - dot (tl (fst p)) xs) / hd (fst p) # xs"
    by (auto split: option.splits)
  note piv = select_pivot_Some [OF sel]
  have lp: "length (fst p) = Suc n"
    using piv(1) Suc.prems(1) by blast
  have lrest: "\<forall>r\<in>set rest. length (fst r) = Suc n"
    using piv(3) Suc.prems(1) by blast
  have wf': "\<forall>r\<in>set (map (eliminate p) rest). length (fst r) = n"
    using lp lrest by (auto simp: eliminate_length)
  have len': "length (map (eliminate p) rest) = n"
    using piv(5) Suc.prems(2) by simp
  from Suc.IH [OF wf' len' rec]
  have lxs: "length xs = n" and ih: "\<forall>r\<in>set (map (eliminate p) rest). dot (fst r) xs = snd r"
    by auto
  have pivot_row: "dot (fst p) x = snd p"
    using piv(2) lp by (simp add: x dot_hd_tl)
  have other: "dot (fst r) x = snd r" if "r \<in> set rest" for r
  proof -
    have lr: "length (fst r) = Suc n"
      using that lrest by blast
    have "dot (fst (eliminate p r)) xs = snd (eliminate p r)"
      using ih that by simp
    then have "dot (tl (fst r)) xs - hd (fst r) / hd (fst p) * dot (tl (fst p)) xs =
               snd r - hd (fst r) / hd (fst p) * snd p"
      by (simp add: eliminate_dot [OF lp lr]) (simp add: eliminate_def Let_def)
    then show ?thesis
      using piv(2) lr by (simp add: x dot_hd_tl field_simps)
  qed
  have "\<forall>r\<in>set rows. dot (fst r) x = snd r"
    using piv(4) pivot_row other by blast
  then show ?case
    using lxs by (simp add: x)
qed

lemma solve_rows_singular:
  assumes "\<forall>r\<in>set rows. length (fst r) = n" "length rows = n" "solve_rows n rows = None"
  shows "\<exists>y. length y = n \<and> (\<exists>v\<in>set y. v \<noteq> 0) \<and> (\<forall>r\<in>set rows. dot (fst r) y = 0)"
  using assms
proof (induction n arbitrary: rows)
  case 0
  then show ?case by simp
next
  case (Suc n)
  show ?case
  proof (cases "select_pivot rows")
    case None
    have ne: "rows \<noteq> []"
      using Suc.prems(2) by auto
    then have "hd (fst (rows ! pivot_index rows)) = 0"
      using None by (auto simp: select_pivot_def Let_def split: if_splits)
    then have heads: "hd (fst r) = 0" if "r \<in> set rows" for r
      using pivot_index_max [OF ne, of "fst r" "snd r"] that by simp
    let ?y = "1 # replicate n (0::real)"
    have "dot (fst r) ?y = 0" if "r \<in> set rows" for r
      using heads [OF that] Suc.prems(1) that by (simp add: dot_hd_tl)
    then show ?thesis
      by (intro exI [of _ ?y]) auto
  next
    case (Some a)
    then obtain p rest where sel: "select_pivot rows = Some (p, rest)"
      by (cases a) auto
    then have rec: "solve_rows n (map (eliminate p) rest) = None"
      using Suc.prems(3) by (auto split: option.splits)
    note piv = select_pivot_Some [OF sel]
    have lp: "length (fst p) = Suc n"
      using piv(1) Suc.prems(1) by blast
    have lrest: "\<forall>r\<in>set rest. length (fst r) = Suc n"
      using piv(3) Suc.prems(1) by blast
    have wf': "\<forall>r\<in>set (map (eliminate p) rest). length (fst r) = n"
      using lp lrest by (auto simp: eliminate_length)
    have len': "length (map (eliminate p) rest) = n"
      using piv(5) Suc.prems(2) by simp
    from Suc.IH [OF wf' len' rec] obtain y where
      ly: "length y = n" and nz: "\<exists>v\<in>set y. v \<noteq> 0" and
      ker: "\<forall>r\<in>set (map (eliminate p) rest). dot (fst r) y = 0"
      by blast
    let ?y = "(- dot (tl (fst p)) y / hd (fst p)) # y"
    have pivot_row: "dot (fst p) ?y = 0"
      using piv(2) lp by (simp add: dot_hd_tl)
    have other: "dot (fst r) ?y = 0" if "r \<in> set rest" for r
    proof -
      have lr: "length (fst r) = Suc n"
        using that lrest by blast
      have "dot (fst (eliminate p r)) y = 0"
        using ker that by simp
      then have "dot (tl (fst r)) y - hd (fst r) / hd (fst p) * dot (tl (fst p)) y = 0"
        by (simp add: eliminate_dot [OF lp lr])
      then show ?thesis
        using piv(2) lr by (simp add: dot_hd_tl field_simps)
    qed
    have "\<forall>r\<in>set rows. dot (fst r) ?y = 0"
      using piv(4) pivot_row other by blast
    then show ?thesis
      using ly nz by (intro exI [of _ ?y]) auto
  qed
qed

subsection \<open>Shapes and entries of the matrices\<close>

lemma length_ew2: "length (ew2 f A B) = min (length A) (length B)"
  by (simp add: ew2_def)

lemma length_ew2_row:
  "i < length A \<Longrightarrow> i < length B \<Longrightarrow> length (ew2 f A B ! i) = min (length (A ! i)) (length (B ! i))"
  by (simp add: ew2_def)

lemma nth_ew2:
  "i < length A \<Longrightarrow> i < length B \<Longrightarrow> j < length (A ! i) \<Longrightarrow> j < length (B ! i) \<Longrightarrow>
   ew2 f A B ! i ! j = f (A ! i ! j) (B ! i ! j)"
  by (simp add: ew2_def)

lemma length_diag: "length (diag v) = length v"
  by (simp add: diag_def)

lemma length_diag_row: "i < length v \<Longrightarrow> length (diag v ! i) = length v"
  by (simp add: diag_def)

lemma nth_diag:
  "i < length v \<Longrightarrow> j < length v \<Longrightarrow> diag v ! i ! j = (if i = j then v ! i else Some 0)"
  by (simp add: diag_def)

lemma length_cdist: "length (cdist xs ys) = length xs"
  by (simp add: cdist_def)

lemma length_cdist_row: "i < length xs \<Longrightarrow> length (cdist xs ys ! i) = length ys"
  by (simp add: cdist_def)

lemma nth_cdist:
  "i < length xs \<Longrightarrow> j < length ys \<Longrightarrow>
   cdist xs ys ! i ! j = Some (sqrt (sum_list (map2 (\<lambda>x y. (x - y)\<^sup>2) (xs ! i) (ys ! j))))"
proof -
  have "0 \<le> sum_list (map2 (\<lambda>x y. (x - y)\<^sup>2) a b)" for a b :: "real list"
    by (intro sum_list_nonneg) auto
  then show "i < length xs \<Longrightarrow> j < length ys \<Longrightarrow> ?thesis"
    by (simp add: cdist_def not_less [symmetric])
qed

lemma cdist_diag: "i < length xs \<Longrightarrow> cdist xs xs ! i ! i = Some 0"
proof -
  have "sum_list (map2 (\<lambda>x y. (x - y)\<^sup>2) a a) = 0" for a :: "real list"
    by (induction a) auto
  then show "i < length xs \<Longrightarrow> ?thesis"
    by (simp add: nth_cdist)
qed

lemma r_data_r_mat: "fst (get_r_data xyz) = cdist xyz xyz"
  by (simp add: get_r_data_def r_data_of_def Let_def)

lemma r_data_t01:
  "fst (snd (get_r_data xyz)) =
   map (map (\<lambda>r. torch_where (r = Some 0) (Some 0) (fdiv (Some 1) r))) (cdist xyz xyz)"
  by (simp add: get_r_data_def r_data_of_def Let_def)

lemma those_eq_Some: "those xs = Some ys \<longleftrightarrow> xs = map Some ys"
proof (induction xs arbitrary: ys)
  case Nil
  then show ?case by auto
next
  case (Cons x xs)
  then show ?case
    by (cases x; cases ys) (auto split: option.splits)
qed

lemma those_matrix_eq_Some:
  "those (map those M) = Some A \<longleftrightarrow> M = map (map Some) A"
proof -
  have "map those M = map Some A \<longleftrightarrow> M = map (map Some) A"
  proof (induction M arbitrary: A)
    case Nil
    then show ?case by auto
  next
    case (Cons r M)
    then show ?case
      by (cases A) (auto simp: those_eq_Some)
  qed
  then show ?thesis
    by (simp add: those_eq_Some)
qed

lemma dot_append:
  "length as = length xs \<Longrightarrow> dot (as @ bs) (xs @ ys) = dot as xs + dot bs ys"
  by (induction as xs rule: list_induct2) simp_all

lemma dot_replicate_one: "length xs = n \<Longrightarrow> dot (replicate n 1) xs = sum_list xs"
  by (induction xs arbitrary: n) auto

lemma dot_constraint_row:
  assumes "length x = Suc n"
  shows "dot (replicate n 1 @ [0]) x = sum_list (butlast x)"
proof -
  from assms obtain xs z where x: "x = xs @ [z]" and "length xs = n"
    by (metis length_Suc_conv_rev)
  then show ?thesis
    by (simp add: dot_append dot_replicate_one)
qed

lemma get_A_QEq_border:
  "get_A_QEq self r_data s =
     map (\<lambda>row. row @ [Some 1]) (A_block self r_data s) @
     [replicate (if A_block self r_data s = [] then 0 else length (hd (A_block self r_data s)))
        (Some 1) @ [Some 0]]"
  unfolding get_A_QEq_def A_block_def T0_QEq_def s_mat_QEq_def new_diag_QEq_def s_gauss_def Let_def
  by (rule refl)

lemma length_s_gauss [simp]: "length (s_gauss self s) = length s"
  by (simp add: s_gauss_def)

lemma length_new_diag_QEq [simp]: "length (new_diag_QEq self s) = length s"
  by (simp add: new_diag_QEq_def)

lemma length_s_mat_QEq [simp]: "length (s_mat_QEq self s) = length s"
  by (simp add: s_mat_QEq_def)

lemma length_s_mat_QEq_row [simp]: "i < length s \<Longrightarrow> length (s_mat_QEq self s ! i) = length s"
  by (simp add: s_mat_QEq_def)

lemma length_t01: "length (fst (snd (get_r_data xyz))) = length xyz"
  by (simp add: r_data_t01 length_cdist)

lemma length_t01_row: "i < length xyz \<Longrightarrow> length (fst (snd (get_r_data xyz)) ! i) = length xyz"
  by (simp add: r_data_t01 length_cdist length_cdist_row)

lemma length_T0_QEq:
  "length s = length xyz \<Longrightarrow> length (T0_QEq self (get_r_data xyz) s) = length xyz"
  by (simp add: T0_QEq_def get_T0_gaussian_def length_ew2 length_t01 r_data_r_mat length_cdist)

lemma length_T0_QEq_row:
  "length s = length xyz \<Longrightarrow> i < length xyz \<Longrightarrow>
   length (T0_QEq self (get_r_data xyz) s ! i) = length xyz"
  by (simp add: T0_QEq_def get_T0_gaussian_def length_ew2 length_ew2_row length_t01
      length_t01_row r_data_r_mat length_cdist length_cdist_row)

lemma nth_T0_QEq:
  assumes "length s = length xyz" "i < length xyz" "j < length xyz"
  shows "T0_QEq self (get_r_data xyz) s ! i ! j =
         fmul (fst (snd (get_r_data xyz)) ! i ! j)
           (ferf (fdiv (fst (get_r_data xyz) ! i ! j)
                   (fmul (s_mat_QEq self s ! i ! j) (fsqrt (Some 2)))))"
  using assms
  by (simp add: T0_QEq_def get_T0_gaussian_def nth_ew2 length_ew2 length_ew2_row length_t01
      length_t01_row r_data_r_mat length_cdist length_cdist_row)

lemma length_A_block:
  "length s = length xyz \<Longrightarrow> length (A_block self (get_r_data xyz) s) = length xyz"
  by (simp add: A_block_def length_ew2 length_diag length_T0_QEq)

lemma length_A_block_row:
  "length s = length xyz \<Longrightarrow> i < length xyz \<Longrightarrow>
   length (A_block self (get_r_data xyz) s ! i) = length xyz"
  by (simp add: A_block_def length_ew2 length_ew2_row length_diag length_diag_row length_T0_QEq
      length_T0_QEq_row)

lemma nth_A_block:
  assumes "length s = length xyz" "i < length xyz" "j < length xyz"
  shows "A_block self (get_r_data xyz) s ! i ! j =
         (if i = j
          then fadd (fmul (Some 1) (new_diag_QEq self s ! i))
                    (fmul (Some 0) (T0_QEq self (get_r_data xyz) s ! i ! i))
          else fadd (fmul (Some 0) (Some 0))
                    (fmul (Some 1) (T0_QEq self (get_r_data xyz) s ! i ! j)))"
  using assms
  by (simp add: A_block_def nth_ew2 length_ew2 length_ew2_row length_diag length_diag_row
      nth_diag length_T0_QEq length_T0_QEq_row)

lemma get_A_QEq_eq:
  assumes "length s = length xyz"
  shows "get_A_QEq self (get_r_data xyz) s =
           map (\<lambda>row. row @ [Some 1]) (A_block self (get_r_data xyz) s) @
           [replicate (length xyz) (Some 1) @ [Some 0]]"
proof -
  let ?A = "A_block self (get_r_data xyz) s"
  have "length (hd ?A) = length xyz" if "?A \<noteq> []"
  proof -
    have "0 < length xyz"
      using that length_A_block [OF assms, of self] by (cases ?A) auto
    then have "length (?A ! 0) = length xyz"
      using assms by (rule length_A_block_row [rotated])
    then show ?thesis
      using that by (simp add: hd_conv_nth)
  qed
  moreover have "length xyz = 0" if "?A = []"
    using length_A_block [OF assms, of self] that by simp
  ultimately have "(if ?A = [] then 0 else length (hd ?A)) = length xyz"
    by auto
  then show ?thesis
    by (simp only: get_A_QEq_border)
qed

lemma get_A_QEq_square:
  assumes "length s = length xyz"
  shows "length (get_A_QEq self (get_r_data xyz) s) = Suc (length xyz)"
    and "list_all (\<lambda>row. length row = Suc (length xyz)) (get_A_QEq self (get_r_data xyz) s)"
    and "get_A_QEq self (get_r_data xyz) s ! length xyz = replicate (length xyz) (Some 1) @ [Some 0]"
proof -
  note eq = get_A_QEq_eq [OF assms, of self]
  note lA = length_A_block [OF assms, of self]
  show "length (get_A_QEq self (get_r_data xyz) s) = Suc (length xyz)"
    by (simp add: eq lA)
  show "list_all (\<lambda>row. length row = Suc (length xyz)) (get_A_QEq self (get_r_data xyz) s)"
    unfolding eq list_all_iff using lA length_A_block_row [OF assms, of _ self]
    by (auto simp: in_set_conv_nth)
  show "get_A_QEq self (get_r_data xyz) s ! length xyz = replicate (length xyz) (Some 1) @ [Some 0]"
    unfolding eq using lA by (simp add: nth_append)
qed

subsection \<open>Charge equilibration\<close>

lemma those_fin [simp]: "those (fin xs) = Some xs"
  by (simp add: those_eq_Some fin_def)

text \<open>
  Claim C2. For every geometry, widths \<open>s\<close> and electronegativities \<open>chi\<close>:
  when the \<open>(N+1) \<times> (N+1)\<close> matrix of \<^verbatim>\<open>_get_A_QEq\<close> consists of finite numbers
  and is nonsingular (only the zero vector is sent to zero by all its rows),
  \<^verbatim>\<open>_get_q\<close> returns \<open>N\<close> charges and they sum to \<open>q_total\<close>. This is the last
  equation of the system: the constraint row of ones with a zero in the corner
  against the right-hand side \<open>q_total\<close>.
\<close>

theorem get_q_total_charge:
  assumes shape: "length s = length xyz" "length chi = length xyz"
    and finite_A: "those (map those (get_A_QEq self (get_r_data xyz) s)) = Some A"
    and finite_chi: "those chi = Some chi'"
    and nonsingular: "\<forall>y. length y = length A \<and> (\<forall>row\<in>set A. dot row y = 0) \<longrightarrow> (\<forall>v\<in>set y. v = 0)"
  shows "\<exists>q. get_q self (get_r_data xyz) s chi = Inr (map Some q)
            \<and> length q = length xyz \<and> sum_list q = q_total self"
proof -
  let ?N = "length xyz"
  let ?M = "get_A_QEq self (get_r_data xyz) s"
  let ?b = "map fneg chi @ [Some (q_total self)]"
  let ?b' = "map uminus chi' @ [q_total self]"
  note sq = get_A_QEq_square [OF shape(1), of self]
  have M: "?M = map (map Some) A"
    using finite_A by (simp add: those_matrix_eq_Some)
  have lA: "length A = Suc ?N"
    using sq(1) M by simp
  have rowsA: "\<forall>row\<in>set A. length row = Suc ?N"
  proof
    fix row assume "row \<in> set A"
    then have "map Some row \<in> set ?M"
      unfolding M by simp
    moreover have "\<forall>r\<in>set ?M. length r = Suc ?N"
      using sq(2) by (simp only: list_all_iff)
    ultimately have "length (map Some row) = Suc ?N"
      by blast
    then show "length row = Suc ?N" by simp
  qed
  have last_row: "A ! ?N = replicate ?N 1 @ [0]"
  proof -
    have "map Some (A ! ?N) = replicate ?N (Some 1) @ [Some 0]"
      using sq(3) lA unfolding M by simp
    also have "\<dots> = map Some (replicate ?N 1 @ [0])"
      by simp
    finally show ?thesis
      by (simp only: inj_map_eq_map [OF inj_Some])
  qed
  have chi: "chi = map Some chi'"
    using finite_chi by (simp add: those_eq_Some)
  have b: "?b = map Some ?b'"
    by (simp add: chi)
  have lb': "length ?b' = Suc ?N"
    using shape(2) chi by simp
  have those_b: "those ?b = Some ?b'"
    unfolding b by (simp add: those_eq_Some)
  let ?rows = "zip A ?b'"
  have wf: "\<forall>r\<in>set ?rows. length (fst r) = Suc ?N"
    using rowsA by (auto dest: set_zip_leftD)
  have lrows: "length ?rows = Suc ?N"
    using lA lb' by simp
  have set_fst: "row \<in> set A \<Longrightarrow> \<exists>r\<in>set ?rows. fst r = row" for row
  proof -
    assume "row \<in> set A"
    then obtain i where "i < length A" "A ! i = row"
      by (auto simp: in_set_conv_nth)
    then have "(row, ?b' ! i) \<in> set ?rows"
      using lA lb' by (auto simp: in_set_zip intro!: exI [of _ i])
    then show ?thesis by force
  qed
  have "solve_rows (Suc ?N) ?rows \<noteq> None"
  proof
    assume "solve_rows (Suc ?N) ?rows = None"
    from solve_rows_singular [OF wf lrows this] obtain y where
      y: "length y = Suc ?N" "\<exists>v\<in>set y. v \<noteq> 0" "\<forall>r\<in>set ?rows. dot (fst r) y = 0"
      by blast
    have "\<forall>row\<in>set A. dot row y = 0"
      using y(3) set_fst by fastforce
    then have "\<forall>v\<in>set y. v = 0"
      using nonsingular y(1) lA by simp
    then show False
      using y(2) by blast
  qed
  then obtain x where x: "solve_rows (Suc ?N) ?rows = Some x"
    by blast
  from solve_rows_sound [OF wf lrows x]
  have lx: "length x = Suc ?N" and sol: "\<forall>r\<in>set ?rows. dot (fst r) x = snd r"
    by auto
  have "(A ! ?N, ?b' ! ?N) \<in> set ?rows"
    using lA lb' by (auto simp: in_set_zip intro!: exI [of _ ?N])
  then have "dot (A ! ?N) x = ?b' ! ?N"
    using sol by fastforce
  moreover have "?b' ! ?N = q_total self"
    using shape(2) chi by (simp add: nth_append)
  ultimately have total: "sum_list (butlast x) = q_total self"
    using last_row dot_constraint_row [OF lx] by simp
  have "solve ?M ?b = Inr (map Some x)"
  proof -
    have "length ?b = length ?M"
      using sq(1) shape(2) by simp
    moreover have "list_all (\<lambda>row. length row = length ?M) ?M"
      using sq(1,2) by simp
    moreover have "those (map those ?M) = Some A"
      by (rule finite_A)
    moreover have "length ?M = Suc ?N"
      by (rule sq(1))
    ultimately show ?thesis
      unfolding solve_def using those_b x by simp
  qed
  then have "get_q self (get_r_data xyz) s chi = Inr (map Some (butlast x))"
    by (simp add: get_q_def Let_def map_butlast)
  moreover have "length (butlast x) = ?N"
    using lx by simp
  ultimately show ?thesis
    using total by blast
qed


lemma erf_0 [simp]: "erf 0 = 0"
  by (simp add: erf_def)

lemma example_A_QEq:
  "get_A_QEq example_model (get_r_data [[0, 0, 0]]) [Some 1] =
     [[Some (1 / sqrt pi), Some 1], [Some 1, Some 0]]"
  by (simp add: get_A_QEq_def get_r_data_def r_data_of_def cdist_def get_T0_gaussian_def ew2_def diag_def
      torch_where_def example_model_def Let_def)

theorem get_q_total_charge_witness:
  "\<exists>q. get_q example_model (get_r_data [[0, 0, 0]]) [Some 1] [Some 2] = Inr (map Some q)
       \<and> length q = 1 \<and> sum_list q = 1"
proof -
  let ?A = "[[1 / sqrt pi, 1], [1, 0 :: real]]"
  have fin_A: "those (map those (get_A_QEq example_model (get_r_data [[0, 0, 0]]) [Some 1])) = Some ?A"
    by (simp add: example_A_QEq)
  have nonsing: "\<forall>y. length y = length ?A \<and> (\<forall>row\<in>set ?A. dot row y = 0) \<longrightarrow> (\<forall>v\<in>set y. v = 0)"
  proof (intro allI impI)
    fix y :: "real list"
    assume h: "length y = length ?A \<and> (\<forall>row\<in>set ?A. dot row y = 0)"
    then obtain a b where y: "y = [a, b]"
      by (cases y; cases "tl y") auto
    from h have "dot [1 / sqrt pi, 1] y = 0" "dot [1, 0] y = 0"
      by simp_all
    then have "a = 0" "b = 0"
      by (simp_all add: y)
    then show "\<forall>v\<in>set y. v = 0"
      by (simp add: y)
  qed
  have "those [Some 2] = Some [2 :: real]"
    by simp
  from get_q_total_charge [OF _ _ fin_A this nonsing]
  show ?thesis
    by (simp add: example_model_def)
qed

lemma s_mat_QEq_entry:
  assumes "i < length s" "j < length s" "s ! i = Some si" "s ! j = Some sj"
  shows "s_mat_QEq self s ! i ! j = Some (sqrt ((si * a_QEq self)\<^sup>2 + (sj * a_QEq self)\<^sup>2))"
proof -
  have "\<not> (si * a_QEq self)\<^sup>2 + (sj * a_QEq self)\<^sup>2 < 0"
    by (simp add: not_less)
  then show ?thesis
    using assms by (simp add: s_mat_QEq_def s_gauss_def)
qed

lemma new_diag_QEq_entry:
  assumes "i < length s" "s ! i = Some si" "si * a_QEq self \<noteq> 0"
  shows "new_diag_QEq self s ! i = Some (1 / (si * a_QEq self * sqrt pi))"
  using assms by (simp add: new_diag_QEq_def s_gauss_def)

lemma solve_length: "solve A b = Inr x \<Longrightarrow> length x = length A"
proof -
  assume h: "solve A b = Inr x"
  then have sq: "length b = length A" "list_all (\<lambda>row. length row = length A) A"
    by (auto simp: solve_def split: if_splits)
  from h obtain A' b' x' where A': "those (map those A) = Some A'" and b': "those b = Some b'"
    and x': "solve_rows (length A) (zip A' b') = Some x'" and x: "x = map Some x'"
    using sq by (auto simp: solve_def split: if_splits option.splits)
  have MA: "A = map (map Some) A'"
    using A' by (simp only: those_matrix_eq_Some)
  have bb: "b = map Some b'"
    using b' by (simp only: those_eq_Some)
  have "\<forall>r\<in>set (zip A' b'). length (fst r) = length A"
  proof
    fix r assume "r \<in> set (zip A' b')"
    then have "fst r \<in> set A'"
      using set_zip_leftD [of "fst r" "snd r" A' b'] by simp
    then have "map Some (fst r) \<in> set A"
      unfolding MA by simp
    moreover have "\<forall>row\<in>set A. length row = length A"
      using sq(2) by (simp only: list_all_iff)
    ultimately have "length (map Some (fst r)) = length A"
      by blast
    then show "length (fst r) = length A" by simp
  qed
  moreover have "length (zip A' b') = length A"
    using sq(1) MA bb by simp
  ultimately have "length x' = length A"
    using solve_rows_sound x' by blast
  then show ?thesis
    by (simp add: x)
qed

lemma square_length: "square n M \<Longrightarrow> length M = n"
  by (simp add: square_def)

lemma square_row: "square n M \<Longrightarrow> i < n \<Longrightarrow> length (M ! i) = n"
  by (simp add: square_def list_all_length)



lemma square_cdist: "square (length xyz) (cdist xyz xyz)"
  by (simp add: square_def cdist_def list_all_iff)


lemma length_T0_QEq_any:
  assumes "length s = n" "square n (fst r_data)" "square n (fst (snd r_data))"
  shows "length (T0_QEq self r_data s) = n"
  using assms
  by (simp add: T0_QEq_def get_T0_gaussian_def length_ew2 square_length)

lemma length_T0_QEq_row_any:
  assumes "length s = n" "square n (fst r_data)" "square n (fst (snd r_data))" "i < n"
  shows "length (T0_QEq self r_data s ! i) = n"
  using assms
  by (simp add: T0_QEq_def get_T0_gaussian_def length_ew2 length_ew2_row square_length square_row)

lemma nth_T0_QEq_any:
  assumes "length s = n" "square n (fst r_data)" "square n (fst (snd r_data))" "i < n" "j < n"
  shows "T0_QEq self r_data s ! i ! j =
         fmul (fst (snd r_data) ! i ! j)
           (ferf (fdiv (fst r_data ! i ! j) (fmul (s_mat_QEq self s ! i ! j) (fsqrt (Some 2)))))"
  using assms
  by (simp add: T0_QEq_def get_T0_gaussian_def nth_ew2 length_ew2 length_ew2_row square_length square_row)

lemma length_A_block_any:
  assumes "length s = n" "square n (fst r_data)" "square n (fst (snd r_data))"
  shows "length (A_block self r_data s) = n"
  using assms
  by (simp add: A_block_def length_ew2 length_diag length_T0_QEq_any)

lemma length_A_block_row_any:
  assumes "length s = n" "square n (fst r_data)" "square n (fst (snd r_data))" "i < n"
  shows "length (A_block self r_data s ! i) = n"
  using assms
  by (simp add: A_block_def length_ew2 length_ew2_row length_diag length_diag_row length_T0_QEq_any
      length_T0_QEq_row_any)

lemma nth_A_block_any:
  assumes "length s = n" "square n (fst r_data)" "square n (fst (snd r_data))" "i < n" "j < n"
  shows "A_block self r_data s ! i ! j =
         (if i = j
          then fadd (fmul (Some 1) (new_diag_QEq self s ! i))
                    (fmul (Some 0) (T0_QEq self r_data s ! i ! i))
          else fadd (fmul (Some 0) (Some 0))
                    (fmul (Some 1) (T0_QEq self r_data s ! i ! j)))"
  using assms
  by (simp add: A_block_def nth_ew2 length_ew2 length_ew2_row length_diag length_diag_row
      nth_diag length_T0_QEq_any length_T0_QEq_row_any)

lemma get_A_QEq_eq_any:
  assumes "length s = n" "square n (fst r_data)" "square n (fst (snd r_data))"
  shows "get_A_QEq self r_data s =
           map (\<lambda>row. row @ [Some 1]) (A_block self r_data s) @ [replicate n (Some 1) @ [Some 0]]"
proof -
  let ?A = "A_block self r_data s"
  have "length (hd ?A) = n" if "?A \<noteq> []"
  proof -
    have "0 < n"
      using that length_A_block_any [OF assms, of self] by (cases ?A) auto
    then have "length (?A ! 0) = n"
      using assms by (intro length_A_block_row_any)
    then show ?thesis
      using that by (simp add: hd_conv_nth)
  qed
  moreover have "n = 0" if "?A = []"
    using length_A_block_any [OF assms, of self] that by simp
  ultimately have "(if ?A = [] then 0 else length (hd ?A)) = n"
    by auto
  then show ?thesis
    by (simp only: get_A_QEq_border)
qed

lemma get_A_QEq_shape_any:
  assumes "length s = n" "square n (fst r_data)" "square n (fst (snd r_data))"
  shows "length (get_A_QEq self r_data s) = Suc n"
    and "i \<le> n \<Longrightarrow> length (get_A_QEq self r_data s ! i) = Suc n"
proof -
  note eq = get_A_QEq_eq_any [OF assms, of self]
  note lb = length_A_block_any [OF assms, of self]
  show "length (get_A_QEq self r_data s) = Suc n"
    by (simp add: eq lb)
  show "length (get_A_QEq self r_data s ! i) = Suc n" if "i \<le> n"
  proof (cases "i < n")
    case True
    then show ?thesis
      using length_A_block_row_any [OF assms True, of self] by (simp add: eq lb nth_append)
  next
    case False
    then have "i = n" using that by simp
    then show ?thesis by (simp add: eq lb nth_append)
  qed
qed

lemma get_A_QEq_block_entry_any:
  assumes "length s = n" "square n (fst r_data)" "square n (fst (snd r_data))" "i < n" "j < n"
  shows "get_A_QEq self r_data s ! i ! j = A_block self r_data s ! i ! j"
  using assms(4,5) length_A_block_any [OF assms(1-3), of self]
    length_A_block_row_any [OF assms(1-4), of self]
  by (simp add: get_A_QEq_eq_any [OF assms(1-3)] nth_append)

lemma get_A_QEq_last_col_any:
  assumes "length s = n" "square n (fst r_data)" "square n (fst (snd r_data))" "i < n"
  shows "get_A_QEq self r_data s ! i ! n = Some 1"
  using assms(4) length_A_block_any [OF assms(1-3), of self]
    length_A_block_row_any [OF assms(1-4), of self]
  by (simp add: get_A_QEq_eq_any [OF assms(1-3)] nth_append)

lemma get_A_QEq_last_row_any:
  assumes "length s = n" "square n (fst r_data)" "square n (fst (snd r_data))"
  shows "j < n \<Longrightarrow> get_A_QEq self r_data s ! n ! j = Some 1"
    and "get_A_QEq self r_data s ! n ! n = Some 0"
  using length_A_block_any [OF assms(1-3), of self]
  by (simp_all add: get_A_QEq_eq_any [OF assms(1-3)] nth_append)

lemma get_A_QEq_off_diag_any:
  assumes "length s = n" "square n (fst r_data)" "square n (fst (snd r_data))" "i < n" "j < n" "i \<noteq> j"
  shows "get_A_QEq self r_data s ! i ! j = T0_QEq self r_data s ! i ! j"
proof -
  have "fadd (Some 0) (fmul (Some 1) t) = t" for t
    by (cases t) simp_all
  then show ?thesis
    using assms(6)
    by (simp add: get_A_QEq_block_entry_any [OF assms(1-5)] nth_A_block_any [OF assms(1-5)])
qed

lemma T0_QEq_entry_any:
  assumes "length s = n" "square n (fst r_data)" "square n (fst (snd r_data))" "i < n" "j < n"
    and "s ! i = Some si" "s ! j = Some sj"
    and "fst (snd r_data) ! i ! j = Some t" "fst r_data ! i ! j = Some r"
    and "si * a_QEq self \<noteq> 0 \<or> sj * a_QEq self \<noteq> 0"
  shows "T0_QEq self r_data s ! i ! j =
         Some (T0_gaussian_entry t r (sqrt ((si * a_QEq self)\<^sup>2 + (sj * a_QEq self)\<^sup>2)))"
proof -
  have "s_mat_QEq self s ! i ! j = Some (sqrt ((si * a_QEq self)\<^sup>2 + (sj * a_QEq self)\<^sup>2))"
    using assms by (intro s_mat_QEq_entry) simp_all
  moreover have "(si * a_QEq self)\<^sup>2 + (sj * a_QEq self)\<^sup>2 \<noteq> 0"
    using assms(10) by (simp add: sum_power2_eq_zero_iff)
  then have "sqrt ((si * a_QEq self)\<^sup>2 + (sj * a_QEq self)\<^sup>2) * sqrt 2 \<noteq> 0"
    by simp
  ultimately show ?thesis
    by (simp add: nth_T0_QEq_any [OF assms(1-5)] assms(8,9) T0_gaussian_entry_def)
qed

lemma get_A_QEq_diag_any:
  assumes "length s = n" "square n (fst r_data)" "square n (fst (snd r_data))" "i < n"
    and "s ! i = Some si" "si * a_QEq self \<noteq> 0"
    and "T0_QEq self r_data s ! i ! i = Some v"
  shows "get_A_QEq self r_data s ! i ! i = Some (1 / (si * a_QEq self * sqrt pi))"
proof -
  have "new_diag_QEq self s ! i = Some (1 / (si * a_QEq self * sqrt pi))"
    using assms by (intro new_diag_QEq_entry) simp_all
  then show ?thesis
    by (simp add: get_A_QEq_block_entry_any [OF assms(1-4) assms(4)]
        nth_A_block_any [OF assms(1-4) assms(4)] assms(7))
qed

text \<open>
  Claim C3. In the matrix of \<^verbatim>\<open>_get_A_QEq\<close> for \<open>N\<close> atoms, for every
  \<open>r_data\<close> whose distance matrix and \<^verbatim>\<open>t01\<close> are \<open>N \<times> N\<close>: an entry for two
  distinct atoms is the entry of \<^verbatim>\<open>_get_T0_gaussian\<close>, which for finite
  entries and widths is \<open>t01\<^sub>i\<^sub>j * erf (r\<^sub>i\<^sub>j / (s\<^sub>i\<^sub>j * sqrt 2))\<close> with the combined
  width \<open>s\<^sub>i\<^sub>j = sqrt (s\<^sub>i\<^sup>2 + s\<^sub>j\<^sup>2)\<close> of the broadened widths \<open>s * a_QEq\<close>; a
  diagonal entry is \<open>1 / (s\<^sub>i * sqrt pi)\<close> of the broadened width, whatever finite
  number the kernel gives on the diagonal (it is overwritten, not added to);
  the last row and column hold ones and the corner holds zero; and
  \<^verbatim>\<open>_get_q\<close> returns the first \<open>N\<close> entries of the \<open>N + 1\<close> entries of the
  solution.
\<close>

theorem A_QEq_entries:
  assumes "length s = n" "square n (fst r_data)" "square n (fst (snd r_data))"
  shows
    "(\<forall>i<n. \<forall>j<n. i \<noteq> j \<longrightarrow>
        get_A_QEq self r_data s ! i ! j =
          get_T0_gaussian (fst (snd r_data)) (fst r_data) (s_mat_QEq self s) ! i ! j
        \<and> (\<forall>si sj t r. s ! i = Some si \<and> s ! j = Some sj
              \<and> fst (snd r_data) ! i ! j = Some t \<and> fst r_data ! i ! j = Some r
              \<and> (si * a_QEq self \<noteq> 0 \<or> sj * a_QEq self \<noteq> 0) \<longrightarrow>
              get_A_QEq self r_data s ! i ! j =
                Some (T0_gaussian_entry t r
                        (sqrt ((si * a_QEq self)\<^sup>2 + (sj * a_QEq self)\<^sup>2)))))
     \<and> (\<forall>i<n. \<forall>si t r. s ! i = Some si \<and> si * a_QEq self \<noteq> 0
          \<and> fst (snd r_data) ! i ! i = Some t \<and> fst r_data ! i ! i = Some r \<longrightarrow>
          get_T0_gaussian (fst (snd r_data)) (fst r_data) (s_mat_QEq self s) ! i ! i =
            Some (T0_gaussian_entry t r (sqrt ((si * a_QEq self)\<^sup>2 + (si * a_QEq self)\<^sup>2)))
          \<and> get_A_QEq self r_data s ! i ! i = Some (1 / (si * a_QEq self * sqrt pi)))
     \<and> (\<forall>i<n. get_A_QEq self r_data s ! i ! n = Some 1
          \<and> get_A_QEq self r_data s ! n ! i = Some 1)
     \<and> get_A_QEq self r_data s ! n ! n = Some 0
     \<and> (\<forall>chi x. solve (get_A_QEq self r_data s) (map fneg chi @ [Some (q_total self)]) = Inr x \<longrightarrow>
          length x = Suc n \<and> get_q self r_data s chi = Inr (take n x))"
proof (intro conjI allI impI)
  fix i j assume "i < n" "j < n" "i \<noteq> j"
  then show "get_A_QEq self r_data s ! i ! j =
          get_T0_gaussian (fst (snd r_data)) (fst r_data) (s_mat_QEq self s) ! i ! j"
    using get_A_QEq_off_diag_any [OF assms, of i j self] by (simp add: T0_QEq_def)
next
  fix i j si sj t r
  assume ij: "i < n" "j < n" "i \<noteq> j"
    and h: "s ! i = Some si \<and> s ! j = Some sj
              \<and> fst (snd r_data) ! i ! j = Some t \<and> fst r_data ! i ! j = Some r
              \<and> (si * a_QEq self \<noteq> 0 \<or> sj * a_QEq self \<noteq> 0)"
  have "T0_QEq self r_data s ! i ! j =
         Some (T0_gaussian_entry t r (sqrt ((si * a_QEq self)\<^sup>2 + (sj * a_QEq self)\<^sup>2)))"
    using h by (intro T0_QEq_entry_any [OF assms ij(1,2)]) simp_all
  then show "get_A_QEq self r_data s ! i ! j =
                Some (T0_gaussian_entry t r
                        (sqrt ((si * a_QEq self)\<^sup>2 + (sj * a_QEq self)\<^sup>2)))"
    using get_A_QEq_off_diag_any [OF assms ij, of self] by simp
next
  fix i si t r
  assume i: "i < n"
    and h: "s ! i = Some si \<and> si * a_QEq self \<noteq> 0
          \<and> fst (snd r_data) ! i ! i = Some t \<and> fst r_data ! i ! i = Some r"
  have raw: "T0_QEq self r_data s ! i ! i =
         Some (T0_gaussian_entry t r (sqrt ((si * a_QEq self)\<^sup>2 + (si * a_QEq self)\<^sup>2)))"
    using h by (intro T0_QEq_entry_any [OF assms i i]) simp_all
  then show "get_T0_gaussian (fst (snd r_data)) (fst r_data) (s_mat_QEq self s) ! i ! i =
            Some (T0_gaussian_entry t r (sqrt ((si * a_QEq self)\<^sup>2 + (si * a_QEq self)\<^sup>2)))"
    by (simp add: T0_QEq_def)
  show "get_A_QEq self r_data s ! i ! i = Some (1 / (si * a_QEq self * sqrt pi))"
    using h by (intro get_A_QEq_diag_any [OF assms i _ _ raw]) simp_all
next
  fix i assume "i < n"
  then show "get_A_QEq self r_data s ! i ! n = Some 1"
    by (rule get_A_QEq_last_col_any [OF assms])
next
  fix i assume "i < n"
  then show "get_A_QEq self r_data s ! n ! i = Some 1"
    by (rule get_A_QEq_last_row_any(1) [OF assms])
next
  show "get_A_QEq self r_data s ! n ! n = Some 0"
    by (rule get_A_QEq_last_row_any(2) [OF assms])
next
  fix chi x
  assume h: "solve (get_A_QEq self r_data s) (map fneg chi @ [Some (q_total self)]) = Inr x"
  then have "length x = length (get_A_QEq self r_data s)"
    by (rule solve_length)
  then show lx: "length x = Suc n"
    by (simp add: get_A_QEq_shape_any(1) [OF assms])
  then have "butlast x = take n x"
    by (simp add: butlast_conv_take)
  then show "get_q self r_data s chi = Inr (take n x)"
    using h by (simp add: get_q_def Let_def)
qed

theorem A_QEq_entries_witness:
  "get_A_QEq example_model
      ([[Some 1, Some 2], [Some 2, Some 1]], [[Some 5, Some (1 / 2)], [Some (1 / 2), Some 5]], [], [])
      [Some 1, Some 1] ! 0 ! 1 = Some (T0_gaussian_entry (1 / 2) 2 (sqrt 2))
   \<and> get_T0_gaussian [[Some 5, Some (1 / 2)], [Some (1 / 2), Some 5]] [[Some 1, Some 2], [Some 2, Some 1]]
        (s_mat_QEq example_model [Some 1, Some 1]) ! 1 ! 1 = Some (T0_gaussian_entry 5 1 (sqrt 2))
   \<and> get_A_QEq example_model
      ([[Some 1, Some 2], [Some 2, Some 1]], [[Some 5, Some (1 / 2)], [Some (1 / 2), Some 5]], [], [])
      [Some 1, Some 1] ! 1 ! 1 = Some (1 / sqrt pi)
   \<and> get_A_QEq example_model
      ([[Some 1, Some 2], [Some 2, Some 1]], [[Some 5, Some (1 / 2)], [Some (1 / 2), Some 5]], [], [])
      [Some 1, Some 1] ! 0 ! 2 = Some 1
   \<and> get_A_QEq example_model
      ([[Some 1, Some 2], [Some 2, Some 1]], [[Some 5, Some (1 / 2)], [Some (1 / 2), Some 5]], [], [])
      [Some 1, Some 1] ! 2 ! 1 = Some 1
   \<and> get_A_QEq example_model
      ([[Some 1, Some 2], [Some 2, Some 1]], [[Some 5, Some (1 / 2)], [Some (1 / 2), Some 5]], [], [])
      [Some 1, Some 1] ! 2 ! 2 = Some 0"
proof -
  let ?r = "[[Some 1, Some 2], [Some 2, Some (1 :: real)]]"
  let ?t = "[[Some 5, Some (1 / 2)], [Some (1 / 2), Some (5 :: real)]]"
  let ?rd = "(?r, ?t, [] :: fl list list, [] :: fl list list)"
  let ?s = "[Some 1, Some (1 :: real)]"
  have len: "length ?s = 2" "square 2 (fst ?rd)" "square 2 (fst (snd ?rd))"
    by (simp_all add: square_def)
  have a: "a_QEq example_model = 1"
    by (simp add: example_model_def)
  note th = A_QEq_entries [OF len, of example_model]
  from th have off: "\<forall>i<2. \<forall>j<2. i \<noteq> j \<longrightarrow>
        (\<forall>si sj t r. ?s ! i = Some si \<and> ?s ! j = Some sj
              \<and> fst (snd ?rd) ! i ! j = Some t \<and> fst ?rd ! i ! j = Some r
              \<and> (si * a_QEq example_model \<noteq> 0 \<or> sj * a_QEq example_model \<noteq> 0) \<longrightarrow>
              get_A_QEq example_model ?rd ?s ! i ! j =
                Some (T0_gaussian_entry t r
                        (sqrt ((si * a_QEq example_model)\<^sup>2 + (sj * a_QEq example_model)\<^sup>2))))"
    by blast
  have c1: "get_A_QEq example_model ?rd ?s ! 0 ! 1 = Some (T0_gaussian_entry (1 / 2) 2 (sqrt 2))"
    using off [rule_format, of 0 1 1 1 "1 / 2" 2] by (simp add: a)
  from th have dg: "\<forall>i<2. \<forall>si t r. ?s ! i = Some si \<and> si * a_QEq example_model \<noteq> 0
          \<and> fst (snd ?rd) ! i ! i = Some t \<and> fst ?rd ! i ! i = Some r \<longrightarrow>
          get_T0_gaussian (fst (snd ?rd)) (fst ?rd) (s_mat_QEq example_model ?s) ! i ! i =
            Some (T0_gaussian_entry t r
                    (sqrt ((si * a_QEq example_model)\<^sup>2 + (si * a_QEq example_model)\<^sup>2)))
          \<and> get_A_QEq example_model ?rd ?s ! i ! i = Some (1 / (si * a_QEq example_model * sqrt pi))"
    by blast
  have c2: "get_T0_gaussian ?t ?r (s_mat_QEq example_model ?s) ! 1 ! 1 = Some (T0_gaussian_entry 5 1 (sqrt 2))
      \<and> get_A_QEq example_model ?rd ?s ! 1 ! 1 = Some (1 / sqrt pi)"
    using dg [rule_format, of 1 1 5 1] by (simp add: a)
  from th have bd: "\<forall>i<2. get_A_QEq example_model ?rd ?s ! i ! 2 = Some 1
          \<and> get_A_QEq example_model ?rd ?s ! 2 ! i = Some 1"
    by blast
  have c3: "get_A_QEq example_model ?rd ?s ! 0 ! 2 = Some 1"
    using bd [rule_format, of 0] by simp
  have c4: "get_A_QEq example_model ?rd ?s ! 2 ! 1 = Some 1"
    using bd [rule_format, of 1] by simp
  from th have c5: "get_A_QEq example_model ?rd ?s ! 2 ! 2 = Some 0"
    by blast
  from c1 c2 c3 c4 c5 show ?thesis
    by blast
qed

subsection \<open>The forward passes without external charges\<close>

text \<open>The species lookup succeeds on every supported atomic number: the
  numbers of \<open>species\<close> are indices of the table.\<close>

lemma species_id_of_supported:
  assumes "\<forall>z\<in>set atomic_numbers. z \<in> set (map int species)"
  shows "\<exists>ids. species_id_of atomic_numbers = Inr ids"
proof -
  have "list_all (\<lambda>i. - int (length species_map) \<le> i \<and> i < int (length species_map)) atomic_numbers"
    unfolding list_all_iff length_species_map
  proof
    fix i assume "i \<in> set atomic_numbers"
    then have "i \<in> set (map int species)" using assms by blast
    then have "i \<in> {1, 6, 7, 8, 16}" by (simp add: species_def)
    then show "- int 17 \<le> i \<and> i < int 17" by auto
  qed
  then show ?thesis
    unfolding species_id_of_def index_tensor_def by simp
qed

text \<open>
  Claim C1. With an empty list of external charges (\<^verbatim>\<open>len(xyz_mm) == 0\<close>) and
  atomic numbers of the supported species, \<^verbatim>\<open>EMLE.forward\<close> returns the two
  zeros, and \<^verbatim>\<open>ANI2xEMLE.forward\<close>, where ANI2x returns the in-vacuo energy
  \<open>E_vac\<close>, returns \<open>(E_vac, 0, 0)\<close> with \<open>E_vac\<close> unchanged. This holds for
  every model object, every charge vector and all positions: no buffer of the
  model is read and no solver is reached.
\<close>

theorem forward_no_charges:
  assumes "\<forall>z\<in>set atomic_numbers. z \<in> set (map int species)"
    and "ani2x atomic_numbers xyz_qm = Inr (E_vac, features)"
  shows "forward self atomic_numbers charges_mm xyz_qm [] = Inr [Some 0, Some 0]
       \<and> ani2x_forward self ani2x atomic_numbers charges_mm xyz_qm [] = Inr [Some E_vac, Some 0, Some 0]"
proof -
  obtain ids where ids: "species_id_of atomic_numbers = Inr ids"
    using species_id_of_supported [OF assms(1)] by blast
  have "forward self atomic_numbers charges_mm xyz_qm [] = Inr [Some 0, Some 0]"
    unfolding forward_def by simp
  moreover have "ani2x_forward self ani2x atomic_numbers charges_mm xyz_qm [] = Inr [Some E_vac, Some 0, Some 0]"
    unfolding ani2x_forward_def bind_def by (simp add: ids assms(2))
  ultimately show ?thesis by simp
qed

theorem forward_no_charges_witness:
  "list_all (\<lambda>z. z \<in> set (map int species)) [1, 6 :: int]
   \<and> forward example_model [1, 6] [] [[0, 0, 0], [1, 0, 0]] [] = Inr [Some 0, Some 0]
   \<and> ani2x_forward example_model (\<lambda>an xyz. Inr (5, map (\<lambda>p. [1, 0]) xyz)) [1, 6] [] [[0, 0, 0], [1, 0, 0]] []
       = Inr [Some 5, Some 0, Some 0]"
  using forward_no_charges [of "[1, 6]" "\<lambda>an xyz. Inr (5, map (\<lambda>p. [1, 0]) xyz)" "[[0, 0, 0], [1, 0, 0]]"
      5 "[[1, 0], [1, 0]]" example_model "[]"]
  by (simp add: species_def)

subsection \<open>Atomic numbers outside the supported species\<close>

lemma species_id_of_2: "species_id_of [2] = Inr [- 1]"
  unfolding species_id_of_def index_tensor_def
  by (simp add: length_species_map species_map_value)

lemma example_gpr_s:
  "gpr example_model [[Some 1, Some 0]] (ref_mean_s example_model) (c_s example_model) [- 1] = Inr [Some 0]"
  unfolding gpr_def
  by (simp add: example_model_def gpr_iter_def row_slice_def upt_rec Let_def)

lemma example_gpr_chi:
  "gpr example_model [[Some 1, Some 0]] (ref_mean_chi example_model) (c_chi example_model) [- 1] = Inr [Some 0]"
  unfolding gpr_def
  by (simp add: example_model_def gpr_iter_def row_slice_def upt_rec Let_def)

lemma example_q_core: "index_tensor (q_core example_model) [- 1] = Inr [4]"
  unfolding index_tensor_def by (simp add: example_model_def)

lemma example_k: "index_tensor (k_scale example_model) [- 1] = Inr [1]"
  unfolding index_tensor_def by (simp add: example_model_def)

lemma example_A_QEq_zero_width:
  "get_A_QEq example_model (get_r_data (to_bohr [[0, 0, 0]])) [Some 0] = [[None, Some 1], [Some 1, Some 0]]"
  unfolding get_A_QEq_def get_r_data_def r_data_of_def
  by (simp add: Let_def to_bohr_def cdist_def torch_where_def get_T0_gaussian_def ew2_def diag_def
        example_model_def repeat_interleave_def)

lemma example_get_q_zero_width:
  "get_q example_model (get_r_data (to_bohr [[0, 0, 0]])) [Some 0] [Some 0] = Inl NonFinite"
  unfolding get_q_def Let_def example_A_QEq_zero_width solve_def by simp

lemma example_energies_unmapped:
  "energies example_model [- 1] [[1, 0]] [1] [[0, 0, 0]] [[1, 0, 0]] = Inl NonFinite"
proof -
  have a: "aev_mask example_model = [True, True]" "mode example_model = Species"
    by (simp_all add: example_model_def)
  show ?thesis
    unfolding energies_def
    by (simp add: a Let_def bind_def example_gpr_s example_gpr_chi example_q_core example_k
          example_get_q_zero_width)
qed

text \<open>
  Claim C8. The claim says that an atomic number outside \<open>{1, 6, 7, 8, 16}\<close>
  makes the species lookup fail at the start of the call. The code does not do
  that for a number within the index range of the table. For helium, the
  number 2, the lookup returns the fill value \<open>-1\<close> and raises nothing; as an
  index of a table of five per-species values, \<open>-1\<close> reads the entry of the
  last species, sulfur; \<^verbatim>\<open>forward\<close> runs on through the regression, which
  leaves the width of the atom at zero, up to the linear solve, whose matrix
  then holds a value that is not a finite number; and with an empty charge
  list the call returns zeros without any lookup. Only a number above 16 (or
  below \<open>-17\<close>) raises IndexError.
\<close>

theorem unsupported_species_not_rejected:
  "species_id_of [2] = Inr [- 1]
   \<and> index_tensor [q_H, q_C, q_N, q_O, q_S] [- 1] = Inr [q_S]
   \<and> forward example_model [2] [1] [[0, 0, 0]] [[1, 0, 0]] = Inl NonFinite
   \<and> forward example_model [2] [] [[0, 0, 0]] [] = Inr [Some 0, Some 0]
   \<and> species_id_of [17] = Inl IndexError"
proof -
  have "aev_computer example_model [- 1] [[0, 0, 0]] = Inr [[1, 0]]"
    by (simp add: example_model_def)
  then have "forward example_model [2] [1] [[0, 0, 0]] [[1, 0, 0]] = Inl NonFinite"
    unfolding forward_def by (simp add: bind_def species_id_of_2 example_energies_unmapped)
  moreover have "forward example_model [2] [] [[0, 0, 0]] [] = Inr [Some 0, Some 0]"
    unfolding forward_def by simp
  moreover have "index_tensor [q_H, q_C, q_N, q_O, q_S] [- 1] = Inr [q_S]"
    unfolding index_tensor_def by simp
  moreover have "species_id_of [17] = Inl IndexError"
    unfolding species_id_of_def index_tensor_def by (simp add: length_species_map)
  ultimately show ?thesis using species_id_of_2 by simp
qed

subsection \<open>Zero distances in \<^verbatim>\<open>_get_r_data\<close>\<close>

lemma all_finite_iff: "all_finite M \<longleftrightarrow> (\<forall>row\<in>set M. \<forall>x\<in>set row. x \<noteq> None)"
  by (simp add: all_finite_def list_all_iff)

lemma all_finite_cdist: "all_finite (cdist xs ys)"
proof -
  have "\<not> sum_list (map2 (\<lambda>x y. (x - y)\<^sup>2) a b) < 0" for a b :: "real list"
  proof -
    have "0 \<le> sum_list (map2 (\<lambda>x y. (x - y)\<^sup>2) a b)"
      by (intro sum_list_nonneg) auto
    then show ?thesis by simp
  qed
  then show ?thesis
    unfolding all_finite_iff cdist_def by auto
qed















end
